theory Spec2Isabelle
  imports Main "HOL-Library.AList" "HOL-Library.Char_ord" "HOL-Library.List_Lexorder"
begin

section \<open>Data model of \<^verbatim>\<open>scripts/generate_loc_stats.py\<close>\<close>

text \<open>
  The script keeps its data in Python dictionaries. A dictionary is modelled as an
  association list in insertion order; \<open>dict_get m k dflt\<close> is \<^verbatim>\<open>m.get(k, dflt)\<close> and
  \<open>AList.update k v m\<close> is \<^verbatim>\<open>m[k] = v\<close> (the value is replaced in place when the key is
  there, the pair is appended otherwise).

  A week entry, whether it comes from the statistics API, from the history walk or from
  the cache, is a dictionary from field names (\<^verbatim>\<open>"w"\<close>, \<^verbatim>\<open>"a"\<close>, \<^verbatim>\<open>"d"\<close>, ...) to integers.

  The keys of a cached \<^verbatim>\<open>weeks\<close> dictionary are written by \<^verbatim>\<open>str(w.get("w", 0))\<close> and read
  back by \<^verbatim>\<open>int(week_ts_str)\<close>: the key \<^verbatim>\<open>str(n)\<close> is represented by the integer \<open>n\<close>
  itself. In the same way \<^verbatim>\<open>last_fetched\<close> and \<^verbatim>\<open>last_updated\<close>, ISO renderings of an
  instant, are represented by that instant in microseconds since the Unix epoch.
\<close>

datatype error =
    SystemExit int
  | HTTPError int
  | TypeError
  | AttributeError
  | KeyError
  | ValueError
  | UnicodeDecodeError

type_synonym week = "(string \<times> int) list"

definition dict_get :: "('k \<times> 'v) list \<Rightarrow> 'k \<Rightarrow> 'v \<Rightarrow> 'v" where
  "dict_get m k dflt = (case map_of m k of None \<Rightarrow> dflt | Some v \<Rightarrow> v)"

record repo_entry =
  etag :: "string option"
  is_private :: bool
  weeks :: "(int \<times> week) list"
  last_fetched :: int

text \<open>
  The cache is the JSON object of \<^verbatim>\<open>data/loc-cache.json\<close>. Its \<^verbatim>\<open>"repos"\<close> key may be
  missing (\<open>None\<close>): \<^verbatim>\<open>main\<close> adds it after loading, \<^verbatim>\<open>compute_timeframes\<close> reads it with
  a default.
\<close>

record cache =
  repos :: "(string \<times> repo_entry) list option"
  last_updated :: "int option"

definition empty_cache :: cache where
  "empty_cache = \<lparr>repos = None, last_updated = None\<rparr>"

section \<open>Aggregation: \<^verbatim>\<open>compute_timeframes\<close>\<close>

definition TIME_FRAMES :: "(string \<times> int) list" where
  "TIME_FRAMES =
     [(''All Time'', 0), (''Last Year'', 365), (''Last Month'', 30), (''Last Week'', 7)]"

record tally =
  additions :: int
  deletions :: int

record frame_stats = tally +
  total :: int

text \<open>
  \<^verbatim>\<open>int((now - timedelta(days=days)).timestamp())\<close>, with \<open>now\<close> in microseconds since the
  epoch: \<^verbatim>\<open>int\<close> truncates toward zero. The float that \<^verbatim>\<open>timestamp()\<close> returns is taken as
  the exact quotient. That is what \<^verbatim>\<open>int\<close> sees as long as the instant is less than \<open>2 ^ 34\<close>
  seconds from the epoch (the year 2514): there the float nearest to a quotient with a
  fraction of at most 0.999999 is below the next whole second. For later instants the
  float of a fraction close to 1 can be the next whole second, one more than here.
\<close>

definition seconds_of :: "int \<Rightarrow> int" where
  "seconds_of us = (if 0 \<le> us then us div 1000000 else - ((- us) div 1000000))"

definition boundary :: "int \<Rightarrow> int \<Rightarrow> int" where
  "boundary now days =
     (if days = 0 then 0 else seconds_of (now - days * 86400 * 1000000))"

definition boundaries :: "int \<Rightarrow> (string \<times> int) list" where
  "boundaries now = map (\<lambda>(label, days). (label, boundary now days)) TIME_FRAMES"

definition add_week :: "week \<Rightarrow> tally \<Rightarrow> tally" where
  "add_week wk r =
     r\<lparr>additions := additions r + dict_get wk ''a'' 0,
       deletions := deletions r + dict_get wk ''d'' 0\<rparr>"

text \<open>The innermost loop: \<^verbatim>\<open>for label, start_ts in boundaries.items()\<close>.\<close>

definition count_week ::
  "(string \<times> int) list \<Rightarrow> int \<times> week \<Rightarrow> (string \<times> tally) list \<Rightarrow> (string \<times> tally) list"
where
  "count_week bs = (\<lambda>(week_ts, wk).
     fold (\<lambda>(label, start_ts) result.
             if week_ts \<ge> start_ts then AList.map_entry label (add_week wk) result
             else result) bs)"

definition count_repo ::
  "(string \<times> int) list \<Rightarrow> string \<times> repo_entry \<Rightarrow> (string \<times> tally) list \<Rightarrow> (string \<times> tally) list"
where
  "count_repo bs = (\<lambda>(repo_name, repo_data). fold (count_week bs) (weeks repo_data))"

definition with_total :: "tally \<Rightarrow> frame_stats" where
  "with_total r =
     \<lparr>additions = additions r, deletions = deletions r, total = additions r + deletions r\<rparr>"

definition compute_timeframes :: "int \<Rightarrow> cache \<Rightarrow> (string \<times> frame_stats) list" where
  "compute_timeframes now c =
     (let result = map (\<lambda>(label, days). (label, \<lparr>additions = 0, deletions = 0\<rparr>)) TIME_FRAMES;
          rs = (case repos c of None \<Rightarrow> [] | Some rs \<Rightarrow> rs);
          result = fold (count_repo (boundaries now)) rs result
      in map (\<lambda>(label, r). (label, with_total r)) result)"

text \<open>\<^verbatim>\<open>stats[label]\<close>; the four labels are always present.\<close>

definition frame :: "(string \<times> frame_stats) list \<Rightarrow> string \<Rightarrow> frame_stats" where
  "frame stats label = dict_get stats label \<lparr>additions = 0, deletions = 0, total = 0\<rparr>"

text \<open>Every week bucket of every cached repository, in iteration order.\<close>

definition all_weeks :: "cache \<Rightarrow> (int \<times> week) list" where
  "all_weeks c = concat (map (\<lambda>(repo_name, repo_data). weeks repo_data)
                          (case repos c of None \<Rightarrow> [] | Some rs \<Rightarrow> rs))"

definition sum_a :: "(int \<times> week) list \<Rightarrow> int" where
  "sum_a ws = sum_list (map (\<lambda>(week_ts, wk). dict_get wk ''a'' 0) ws)"

definition sum_d :: "(int \<times> week) list \<Rightarrow> int" where
  "sum_d ws = sum_list (map (\<lambda>(week_ts, wk). dict_get wk ''d'' 0) ws)"

definition since :: "int \<Rightarrow> (int \<times> week) list \<Rightarrow> (int \<times> week) list" where
  "since start_ts ws = filter (\<lambda>(week_ts, wk). week_ts \<ge> start_ts) ws"

section \<open>Python string operations\<close>

text \<open>
  Strings are byte strings; the operations below are Python's on ASCII text, which is what
  \<^verbatim>\<open>git log --pretty=format:%at --numstat\<close> and the rate-limit headers carry.
\<close>

definition isspace :: "char \<Rightarrow> bool" where
  "isspace c = (c \<in> set [CHR 0x09, CHR 0x0A, CHR 0x0B, CHR 0x0C, CHR 0x0D,
                          CHR 0x1C, CHR 0x1D, CHR 0x1E, CHR 0x1F, CHR '' ''])"

definition strip :: "string \<Rightarrow> string" where
  "strip s = rev (dropWhile isspace (rev (dropWhile isspace s)))"

definition is_digit :: "char \<Rightarrow> bool" where
  "is_digit c = (c \<in> set ''0123456789'')"

definition isdigit :: "string \<Rightarrow> bool" where
  "isdigit s = (s \<noteq> [] \<and> list_all is_digit s)"

definition digit_val :: "char \<Rightarrow> int" where
  "digit_val c = of_char c - 48"

text \<open>
  \<^verbatim>\<open>int(s)\<close> on an ASCII string: the whitespace it drops on both sides is tab, line feed,
  vertical tab, form feed, carriage return and space only (not the separators 0x1C to 0x1F
  that \<^verbatim>\<open>str.strip\<close> drops as well); one sign is allowed, then decimal digits, where
  single underscores may stand between digits. Anything else raises \<^verbatim>\<open>ValueError\<close>. (The
  interpreter's limit on the number of digits is not modelled.)
\<close>

definition int_space :: "char \<Rightarrow> bool" where
  "int_space c = (c \<in> set [CHR 0x09, CHR 0x0A, CHR 0x0B, CHR 0x0C, CHR 0x0D, CHR '' ''])"

definition int_strip :: "string \<Rightarrow> string" where
  "int_strip s = rev (dropWhile int_space (rev (dropWhile int_space s)))"

fun int_digits :: "bool \<Rightarrow> int \<Rightarrow> string \<Rightarrow> int option" where
  "int_digits prev_digit acc [] = (if prev_digit then Some acc else None)"
| "int_digits prev_digit acc (c # cs) =
     (if is_digit c then int_digits True (acc * 10 + digit_val c) cs
      else if c = CHR ''_'' \<and> prev_digit then int_digits False acc cs
      else None)"

definition py_int :: "string \<Rightarrow> error + int" where
  "py_int s =
     (let t = int_strip s;
          negative = (t \<noteq> [] \<and> hd t = CHR ''-'');
          signed = (t \<noteq> [] \<and> (hd t = CHR ''-'' \<or> hd t = CHR ''+''));
          digits = (if signed then tl t else t)
      in case int_digits False 0 digits of
           None \<Rightarrow> Inl ValueError
         | Some n \<Rightarrow> Inr (if negative then - n else n))"

text \<open>\<^verbatim>\<open>s.split(sep)\<close> for a one-character separator.\<close>

fun split :: "char \<Rightarrow> string \<Rightarrow> string list" where
  "split sep [] = [[]]"
| "split sep (c # cs) =
     (if c = sep then [] # split sep cs
      else (case split sep cs of [] \<Rightarrow> [[c]] | p # ps \<Rightarrow> (c # p) # ps))"

definition lower_char :: "char \<Rightarrow> char" where
  "lower_char c = (if c \<in> set ''ABCDEFGHIJKLMNOPQRSTUVWXYZ''
                   then char_of (of_char c + (32 :: nat)) else c)"

definition lower :: "string \<Rightarrow> string" where
  "lower s = map lower_char s"

text \<open>\<^verbatim>\<open>needle in haystack\<close> on strings.\<close>

fun contains :: "string \<Rightarrow> string \<Rightarrow> bool" where
  "contains [] needle = (needle = [])"
| "contains (c # cs) needle = (take (length needle) (c # cs) = needle \<or> contains cs needle)"

section \<open>Control flow with exceptions\<close>

text \<open>
  A computation that may raise returns \<open>error + 'a\<close>. \<open>and_then\<close> sequences two of them;
  \<open>for_each\<close> is a \<^verbatim>\<open>for\<close> loop whose body may raise, threading the loop's variables.
\<close>

definition and_then :: "error + 'a \<Rightarrow> ('a \<Rightarrow> error + 'b) \<Rightarrow> error + 'b" where
  "and_then r f = (case r of Inl e \<Rightarrow> Inl e | Inr x \<Rightarrow> f x)"

fun for_each :: "('a \<Rightarrow> 's \<Rightarrow> error + 's) \<Rightarrow> 'a list \<Rightarrow> 's \<Rightarrow> error + 's" where
  "for_each loop_body [] s = Inr s"
| "for_each loop_body (x # xs) s =
     (case loop_body x s of Inl e \<Rightarrow> Inl e | Inr s' \<Rightarrow> for_each loop_body xs s')"

section \<open>The history walk: \<^verbatim>\<open>clone_and_count\<close>\<close>

text \<open>
  What the two \<^verbatim>\<open>git\<close> subprocesses do is the environment's choice: one of them times
  out, one of them exits with an error, or \<^verbatim>\<open>git log\<close> completes and
  \<^verbatim>\<open>result.stdout.splitlines()\<close> is the given list of lines.
\<close>

datatype git_outcome = TimeoutExpired | CalledProcessError | Completed "string list"

text \<open>
  Lines 203 to 205: the commit's instant as a UTC \<^verbatim>\<open>datetime\<close>, moved back by
  \<^verbatim>\<open>weekday()\<close> days (Monday is 0; 1 January 1970 was a Thursday, 3) and cut to midnight.
  \<^verbatim>\<open>datetime.fromtimestamp\<close> raises for an instant after the year 9999 (\<^verbatim>\<open>ValueError\<close>;
  \<^verbatim>\<open>OverflowError\<close> or \<^verbatim>\<open>OSError\<close> for still larger numbers, depending on the platform),
  outside of the \<^verbatim>\<open>try\<close> of line 197.
\<close>

definition week_start :: "int \<Rightarrow> error + int" where
  "week_start current_ts =
     (if current_ts > 253402300799 then Inl ValueError
      else let days = current_ts div 86400;
               weekday = (days + 3) mod 7
           in Inr ((days - weekday) * 86400))"

text \<open>
  The dictionary \<^verbatim>\<open>weekly\<close> maps a week start to \<^verbatim>\<open>{"a": x, "d": y}\<close>, here the pair
  \<open>(x, y)\<close>. Lines 206 to 209:
\<close>

definition bump_week :: "int \<Rightarrow> int \<Rightarrow> int \<Rightarrow> (int \<times> int \<times> int) list \<Rightarrow> (int \<times> int \<times> int) list" where
  "bump_week week_ts adds dels weekly =
     (let weekly = (if map_of weekly week_ts = None then AList.update week_ts (0, 0) weekly
                    else weekly);
          (x, y) = dict_get weekly week_ts (0, 0)
      in AList.update week_ts (x + adds, y + dels) weekly)"

text \<open>\<^verbatim>\<open>int(parts[i]) if parts[i] != "-" else 0\<close>\<close>

definition count_of :: "string \<Rightarrow> error + int" where
  "count_of p = (if p \<noteq> ''-'' then py_int p else Inr 0)"

text \<open>
  The body of the loop over the lines (lines 187 to 209); the loop's variables are
  \<^verbatim>\<open>weekly\<close> and \<^verbatim>\<open>current_ts\<close>. \<^verbatim>\<open>continue\<close> returns them unchanged.
\<close>

definition parse_line ::
  "string \<Rightarrow> (int \<times> int \<times> int) list \<times> int option
     \<Rightarrow> error + (int \<times> int \<times> int) list \<times> int option"
where
  "parse_line raw = (\<lambda>(weekly, current_ts).
     let line = strip raw in
     if line = [] then Inr (weekly, current_ts)
     else if isdigit line then
       and_then (py_int line) (\<lambda>n. Inr (weekly, Some n))
     else
       let parts = split (CHR 0x09) line in
       if length parts \<ge> 3 \<and> current_ts \<noteq> None then
         (case count_of (parts ! 0) of
            Inl e \<Rightarrow> Inr (weekly, current_ts)
          | Inr adds \<Rightarrow>
              (case count_of (parts ! 1) of
                 Inl e \<Rightarrow> Inr (weekly, current_ts)
               | Inr dels \<Rightarrow>
                   and_then (week_start (the current_ts)) (\<lambda>week_ts.
                     Inr (bump_week week_ts adds dels weekly, current_ts))))
       else Inr (weekly, current_ts))"

definition week_dict :: "int \<times> int \<times> int \<Rightarrow> week" where
  "week_dict = (\<lambda>(ts, x, y). [(''w'', ts), (''a'', x), (''d'', y)])"

definition clone_and_count :: "git_outcome \<Rightarrow> error + week list" where
  "clone_and_count outcome =
     (case outcome of
        TimeoutExpired \<Rightarrow> Inr []
      | CalledProcessError \<Rightarrow> Inr []
      | Completed stdout_lines \<Rightarrow>
          and_then (for_each parse_line stdout_lines ([], None)) (\<lambda>(weekly, current_ts).
            Inr (map week_dict (sort_key fst weekly))))"

section \<open>The state of a run\<close>

text \<open>
  A run mutates the cache, reads the clock and sleeps. The state records the cache, the
  clock (microseconds since the epoch; only \<^verbatim>\<open>time.sleep\<close> advances it), every
  \<^verbatim>\<open>time.sleep\<close> made (its seconds, in order) and every call of \<^verbatim>\<open>clone_and_count\<close> (the
  repository, in order). Log lines, and with them \<^verbatim>\<open>_display_name\<close> and its counter,
  are left out. The cache is a type parameter: before \<^verbatim>\<open>main\<close> has used the loaded value
  as a dictionary it can be any JSON value.
\<close>

record 'c run_state =
  cache :: 'c
  clock :: int
  sleeps :: "int list"
  clones :: "string list"

definition sleep :: "int \<Rightarrow> 'c run_state \<Rightarrow> 'c run_state" where
  "sleep secs st = st\<lparr>clock := clock st + secs * 1000000, sleeps := sleeps st @ [secs]\<rparr>"

section \<open>GitHub API helpers\<close>

definition PASS2_WAIT :: int where
  "PASS2_WAIT = 10"

definition RATE_LIMIT_FLOOR :: int where
  "RATE_LIMIT_FLOOR = 100"

text \<open>
  A response of \<^verbatim>\<open>requests.get\<close>: its status, its headers (names as the code spells
  them) and the decoded \<^verbatim>\<open>resp.json()\<close>. A request that raises instead of returning a
  response (no connection, a timeout) is outside the model.
\<close>

record 'a response =
  status_code :: int
  headers :: "(string \<times> string) list"
  body :: 'a

definition check_rate_limit :: "(string \<times> string) list \<Rightarrow> 'c run_state \<Rightarrow> error + 'c run_state" where
  "check_rate_limit hdrs st =
     (case map_of hdrs ''X-RateLimit-Remaining'' of
        None \<Rightarrow> Inr st
      | Some r \<Rightarrow>
          and_then (py_int r) (\<lambda>remaining.
            if remaining < RATE_LIMIT_FLOOR then
              and_then (case map_of hdrs ''X-RateLimit-Reset'' of
                          None \<Rightarrow> Inr 0 | Some s \<Rightarrow> py_int s) (\<lambda>reset_ts.
                Inr (sleep (max (reset_ts - seconds_of (clock st)) 1) st))
            else Inr st))"

text \<open>\<^verbatim>\<open>resp.raise_for_status()\<close> raises for the statuses 400 to 599.\<close>

definition raise_for_status :: "int \<Rightarrow> error + unit" where
  "raise_for_status status =
     (if 400 \<le> status \<and> status < 600 then Inl (HTTPError status) else Inr ())"

record repo_info =
  full_name :: string
  private_flag :: bool

text \<open>
  The chain of responses that \<^verbatim>\<open>list_user_repos\<close> walks: \<open>Last\<close> is a response without a
  \<^verbatim>\<open>next\<close> link, \<open>More p rest\<close> a response whose \<^verbatim>\<open>next\<close> link leads to \<open>rest\<close>.
  \<^verbatim>\<open>main\<close> catches the \<^verbatim>\<open>HTTPError\<close> of a listing, so the state reached when it is raised is
  returned with it.
\<close>

datatype listing = Last "repo_info list response" | More "repo_info list response" listing

fun list_user_repos ::
  "listing \<Rightarrow> 'c run_state \<Rightarrow> (error + repo_info list) \<times> 'c run_state"
where
  "list_user_repos (Last p) st =
     (case check_rate_limit (headers p) st of
        Inl e \<Rightarrow> (Inl e, st)
      | Inr st' \<Rightarrow>
          (case raise_for_status (status_code p) of
             Inl e \<Rightarrow> (Inl e, st')
           | Inr u \<Rightarrow> (Inr (body p), st')))"
| "list_user_repos (More p rest) st =
     (case check_rate_limit (headers p) st of
        Inl e \<Rightarrow> (Inl e, st)
      | Inr st' \<Rightarrow>
          (case raise_for_status (status_code p) of
             Inl e \<Rightarrow> (Inl e, st')
           | Inr u \<Rightarrow>
               (case list_user_repos rest st' of
                  (Inl e, st'') \<Rightarrow> (Inl e, st'')
                | (Inr rs, st'') \<Rightarrow> (Inr (body p @ rs), st''))))"

text \<open>
  One contributor of \<^verbatim>\<open>resp.json()\<close>. Its \<^verbatim>\<open>"author"\<close> is missing, \<^verbatim>\<open>null\<close>, or an object
  with a login (the empty string when the object has none); \<open>contributor_weeks\<close> is
  \<^verbatim>\<open>contrib.get("weeks", [])\<close>.
\<close>

datatype author_field = Author_missing | Author_null | Author_login string

record contributor =
  author :: author_field
  contributor_weeks :: "week list"

text \<open>
  Lines 134 to 138: the weeks of the first contributor whose login is the user's, without
  regard to case. \<^verbatim>\<open>contrib.get("author", {})\<close> is \<^verbatim>\<open>{}\<close> for a missing author, whose login
  is then the empty string, and \<^verbatim>\<open>None\<close> for a \<^verbatim>\<open>null\<close> author, on which \<^verbatim>\<open>.get\<close> raises
  \<^verbatim>\<open>AttributeError\<close>.
\<close>

fun weeks_for_user :: "string \<Rightarrow> contributor list \<Rightarrow> error + week list" where
  "weeks_for_user github_user [] = Inr []"
| "weeks_for_user github_user (contrib # rest) =
     (case author contrib of
        Author_null \<Rightarrow> Inl AttributeError
      | Author_missing \<Rightarrow>
          if lower [] = lower github_user then Inr (contributor_weeks contrib)
          else weeks_for_user github_user rest
      | Author_login l \<Rightarrow>
          if lower l = lower github_user then Inr (contributor_weeks contrib)
          else weeks_for_user github_user rest)"

text \<open>
  \<^verbatim>\<open>get_contributor_stats\<close>, given the response that the request receives. It returns
  \<^verbatim>\<open>(weeks_for_user, new_etag, http_status)\<close>.
\<close>

definition get_contributor_stats ::
  "string \<Rightarrow> contributor list response \<Rightarrow> string option \<Rightarrow> 'c run_state
     \<Rightarrow> error + (week list option \<times> string option \<times> int) \<times> 'c run_state"
where
  "get_contributor_stats github_user resp etg st =
     (let status = status_code resp;
          new_etag = map_of (headers resp) ''ETag''
      in if status = 304 then Inr ((None, etg, 304), st)
         else if status = 202 then Inr ((None, new_etag, 202), st)
         else if status = 200 then
           and_then (check_rate_limit (headers resp) st) (\<lambda>st'.
             and_then (weeks_for_user github_user (body resp)) (\<lambda>ws.
               Inr ((Some ws, new_etag, 200), st')))
         else
           and_then (raise_for_status status) (\<lambda>u. Inr ((None, new_etag, status), st)))"

section \<open>Processing one repository: \<^verbatim>\<open>_process_repo\<close>\<close>

text \<open>
  The environment's \<^verbatim>\<open>git\<close> is a function of the token and the repository; a call of
  \<^verbatim>\<open>clone_and_count\<close> is recorded in the state.
\<close>

definition run_clone ::
  "(string \<Rightarrow> string \<Rightarrow> git_outcome) \<Rightarrow> string \<Rightarrow> string \<Rightarrow> cache run_state
     \<Rightarrow> error + week list \<times> cache run_state"
where
  "run_clone git_env token fname st =
     and_then (clone_and_count (git_env token fname)) (\<lambda>ws.
       Inr (ws, st\<lparr>clones := clones st @ [fname]\<rparr>))"

text \<open>Lines 406 to 409.\<close>

definition weeks_dict_of :: "week list \<Rightarrow> (int \<times> week) list" where
  "weeks_dict_of ws =
     fold (\<lambda>w weeks_dict.
             AList.update (dict_get w ''w'' 0)
               [(''a'', dict_get w ''a'' 0), (''d'', dict_get w ''d'' 0)] weeks_dict) ws []"

text \<open>\<^verbatim>\<open>cache["repos"][full_name] = {"etag": ..., "is_private": ..., "weeks": ..., "last_fetched": ...}\<close>\<close>

definition put_entry ::
  "string \<Rightarrow> repo_info \<Rightarrow> string option \<Rightarrow> (int \<times> week) list \<Rightarrow> cache run_state
     \<Rightarrow> error + cache run_state"
where
  "put_entry fname repo new_etag weeks_dict st =
     (case repos (cache st) of
        None \<Rightarrow> Inl KeyError
      | Some rs \<Rightarrow>
          Inr (st\<lparr>cache := (cache st)\<lparr>repos := Some (AList.update fname
                   \<lparr>etag = new_etag, is_private = private_flag repo, weeks = weeks_dict,
                    last_fetched = clock st\<rparr> rs)\<rparr>\<rparr>))"

definition process_repo ::
  "(string \<Rightarrow> string \<Rightarrow> git_outcome) \<Rightarrow> string \<Rightarrow> repo_info \<Rightarrow> string \<Rightarrow> cache run_state
     \<Rightarrow> week list option \<Rightarrow> string option \<Rightarrow> int \<Rightarrow> error + cache run_state"
where
  "process_repo git_env fname repo token st wks new_etag status =
     (case repos (cache st) of
        None \<Rightarrow> Inl KeyError
      | Some rs \<Rightarrow>
          let cached_weeks = (case map_of rs fname of None \<Rightarrow> [] | Some e \<Rightarrow> weeks e) in
          if status = 304 then Inr st
          else if wks \<noteq> None \<and> length (the wks) > 0 then
            let total_a = sum_list (map (\<lambda>w. dict_get w ''a'' 0) (the wks));
                total_d = sum_list (map (\<lambda>w. dict_get w ''d'' 0) (the wks))
            in if total_a = 0 \<and> total_d = 0 then
                 and_then (run_clone git_env token fname st) (\<lambda>(ws, st').
                   put_entry fname repo new_etag (weeks_dict_of ws) st')
               else put_entry fname repo new_etag (weeks_dict_of (the wks)) st
          else if wks \<noteq> None \<and> length (the wks) = 0 then
            put_entry fname repo new_etag [] st
          else if cached_weeks \<noteq> [] then Inr st
          else
            and_then (run_clone git_env token fname st) (\<lambda>(ws, st').
              put_entry fname repo new_etag (weeks_dict_of ws) st'))"

section \<open>Cache management\<close>

text \<open>
  What \<^verbatim>\<open>json.load\<close> can return. A JSON object is taken to follow the cache's schema;
  arrays of values, strings, integers, booleans and \<^verbatim>\<open>null\<close> are the other documents.
\<close>

datatype py_value =
    None_v
  | Bool_v bool
  | Int_v int
  | Str_v string
  | List_v "py_value list"
  | Dict_v cache

text \<open>
  The cache file: it does not exist, its bytes are not text in the locale's encoding
  (\<^verbatim>\<open>json.load\<close> raises \<^verbatim>\<open>UnicodeDecodeError\<close>), its text is not JSON (\<^verbatim>\<open>json.load\<close> raises
  \<^verbatim>\<open>JSONDecodeError\<close>; an empty or cut-off file is of this kind), or it holds a JSON
  document.
\<close>

datatype cache_file = Absent | Undecodable | Malformed | Holds py_value

definition load_cache :: "cache_file \<Rightarrow> error + py_value" where
  "load_cache file =
     (case file of
        Absent \<Rightarrow> Inr (Dict_v empty_cache)
      | Undecodable \<Rightarrow> Inl UnicodeDecodeError
      | Malformed \<Rightarrow> Inr (Dict_v empty_cache)
      | Holds v \<Rightarrow> Inr v)"

text \<open>
  \<^verbatim>\<open>save_cache\<close> returns the cache it has stamped and the states the file goes through:
  as found (\<^verbatim>\<open>mkdir\<close> and the stamp do not touch it), emptied by \<^verbatim>\<open>open(CACHE_PATH, "w")\<close>,
  and holding the new document once \<^verbatim>\<open>json.dump\<close> has written it and the file is closed.
  While \<^verbatim>\<open>json.dump\<close> writes, the file holds a cut-off document.
\<close>

definition save_cache :: "int \<Rightarrow> cache \<Rightarrow> cache_file \<Rightarrow> cache \<times> cache_file list" where
  "save_cache now c file =
     (let c' = c\<lparr>last_updated := Some now\<rparr>
      in (c', [file, Malformed, Holds (Dict_v c')]))"

section \<open>The run: \<^verbatim>\<open>main\<close>\<close>

text \<open>
  Everything a run reads from outside: the configured tokens (label and token, in the
  order of \<^verbatim>\<open>TOKENS\<close>), the user name, the cache file, what the listing endpoint answers
  for a token, what the statistics endpoint answers in pass 1 or 2 for a repository and
  the \<^verbatim>\<open>If-None-Match\<close> token sent, what \<^verbatim>\<open>git\<close> does for a token and a repository, and
  the clock at the start.
\<close>

record world =
  TOKENS :: "(string \<times> string) list"
  GITHUB_USER :: string
  cache_file :: cache_file
  repo_pages :: "string \<Rightarrow> listing"
  stats_api :: "nat \<Rightarrow> string \<Rightarrow> string option \<Rightarrow> contributor list response"
  git :: "string \<Rightarrow> string \<Rightarrow> git_outcome"
  start_time :: int

text \<open>Lines 439 and 440: \<^verbatim>\<open>if "repos" not in cache: cache["repos"] = {}\<close>, on what was loaded.\<close>

definition init_repos :: "py_value \<Rightarrow> error + py_value" where
  "init_repos loaded =
     (case loaded of
        Dict_v c \<Rightarrow> Inr (Dict_v (if repos c = None then c\<lparr>repos := Some []\<rparr> else c))
      | List_v xs \<Rightarrow> if Str_v ''repos'' \<in> set xs then Inr loaded else Inl TypeError
      | Str_v s \<Rightarrow> if contains s ''repos'' then Inr loaded else Inl TypeError
      | None_v \<Rightarrow> Inl TypeError
      | Bool_v b \<Rightarrow> Inl TypeError
      | Int_v n \<Rightarrow> Inl TypeError)"

text \<open>
  The body of the loop over the tokens (lines 444 to 456); \<^verbatim>\<open>all_repos\<close> maps a full name
  to \<^verbatim>\<open>(repo, token, label)\<close>.
\<close>

type_synonym all_repos = "(string \<times> repo_info \<times> string \<times> string) list"

definition discover ::
  "(string \<Rightarrow> listing) \<Rightarrow> string \<times> string \<Rightarrow> all_repos \<times> 'c run_state
     \<Rightarrow> error + all_repos \<times> 'c run_state"
where
  "discover pages = (\<lambda>(label, token) (found, st).
     case list_user_repos (pages token) st of
       (Inl (HTTPError code), st') \<Rightarrow> Inr (found, st')
     | (Inl e, st') \<Rightarrow> Inl e
     | (Inr rs, st') \<Rightarrow>
         Inr (fold (\<lambda>repo found.
                      if map_of found (full_name repo) = None
                      then AList.update (full_name repo) (repo, token, label) found
                      else found) rs found, st'))"

text \<open>
  The body of the loop of pass 1 (lines 474 to 485); the loop's variables are the state
  and \<^verbatim>\<open>pending_202\<close>, whose elements are \<^verbatim>\<open>(full_name, repo, token, etag)\<close>.
\<close>

type_synonym pending = "(string \<times> repo_info \<times> string \<times> string option) list"

definition pass1_step ::
  "world \<Rightarrow> string \<times> repo_info \<times> string \<times> string \<Rightarrow> cache run_state \<times> pending
     \<Rightarrow> error + cache run_state \<times> pending"
where
  "pass1_step w = (\<lambda>(fname, repo, token, token_label) (st, pending_202).
     case repos (cache st) of
       None \<Rightarrow> Inl KeyError
     | Some rs \<Rightarrow>
         let etg = (case map_of rs fname of None \<Rightarrow> None | Some e \<Rightarrow> etag e) in
         and_then (get_contributor_stats (GITHUB_USER w) (stats_api w 1 fname etg) etg st)
           (\<lambda>((wks, new_etag, status), st').
              if status = 202 then Inr (st', pending_202 @ [(fname, repo, token, new_etag)])
              else and_then (process_repo (git w) fname repo token st' wks new_etag status)
                     (\<lambda>st''. Inr (st'', pending_202))))"

text \<open>The body of the loop of pass 2 (lines 495 to 501): a request without a token.\<close>

definition pass2_step ::
  "world \<Rightarrow> string \<times> repo_info \<times> string \<times> string option \<Rightarrow> cache run_state
     \<Rightarrow> error + cache run_state"
where
  "pass2_step w = (\<lambda>(fname, repo, token, old_etag) st.
     and_then (get_contributor_stats (GITHUB_USER w) (stats_api w 2 fname None) None st)
       (\<lambda>((wks, new_etag, status), st').
          process_repo (git w) fname repo token st' wks new_etag status))"

text \<open>
  What a run that returns leaves behind: the statistics handed to \<^verbatim>\<open>generate_svg\<close>, the
  states the cache file went through, and the final state.
\<close>

record outcome =
  svg_stats :: "(string \<times> frame_stats) list"
  cache_file_states :: "cache_file list"
  final_state :: "cache run_state"

text \<open>Lines 474 to 529, with the cache a dictionary.\<close>

definition run_passes :: "world \<Rightarrow> all_repos \<Rightarrow> cache run_state \<Rightarrow> error + outcome" where
  "run_passes w found st =
     and_then (for_each (pass1_step w) (sort_key fst found) (st, [])) (\<lambda>(st, pending_202).
     and_then (if pending_202 \<noteq> []
               then for_each (pass2_step w) pending_202 (sleep PASS2_WAIT st)
               else Inr st) (\<lambda>st.
     let stats = compute_timeframes (clock st) (cache st);
         (c', states) = save_cache (clock st) (cache st) (cache_file w)
     in Inr \<lparr>svg_stats = stats, cache_file_states = states,
             final_state = st\<lparr>cache := c'\<rparr>\<rparr>))"

text \<open>
  \<^verbatim>\<open>main\<close>. When the loaded value is not a dictionary and passed lines 439 and 440, the
  first \<^verbatim>\<open>cache["repos"]\<close> of pass 1 raises \<^verbatim>\<open>TypeError\<close>, or, with no repository found,
  \<^verbatim>\<open>cache.get\<close> in \<^verbatim>\<open>compute_timeframes\<close> raises \<^verbatim>\<open>AttributeError\<close>.
\<close>

definition main :: "world \<Rightarrow> error + outcome" where
  "main w =
     (let active_tokens = filter (\<lambda>(label, token). token \<noteq> []) (TOKENS w) in
      if active_tokens = [] then Inl (SystemExit 1)
      else
        and_then (load_cache (cache_file w)) (\<lambda>loaded.
        and_then (init_repos loaded) (\<lambda>loaded.
        and_then (for_each (discover (repo_pages w)) active_tokens
                    ([], \<lparr>cache = loaded, clock = start_time w, sleeps = [], clones = []\<rparr>))
          (\<lambda>(found, st).
             case cache st of
               Dict_v c \<Rightarrow>
                 run_passes w found
                   \<lparr>cache = c, clock = clock st, sleeps = sleeps st, clones = clones st\<rparr>
             | List_v xs \<Rightarrow> if found = [] then Inl AttributeError else Inl TypeError
             | Str_v s \<Rightarrow> if found = [] then Inl AttributeError else Inl TypeError
             | None_v \<Rightarrow> Inl TypeError
             | Bool_v b \<Rightarrow> Inl TypeError
             | Int_v n \<Rightarrow> Inl TypeError))))"

section \<open>Notions used in the statements\<close>

subsection \<open>Totals of week buckets\<close>

text \<open>
  The totals of a list of cached week buckets, the totals of each window over such a
  list, a cache without negative counts, and the componentwise order of two results.
\<close>

definition tally_of :: "(int \<times> week) list \<Rightarrow> tally" where
  "tally_of ws = \<lparr>additions = sum_a ws, deletions = sum_d ws\<rparr>"

definition tallies :: "(string \<times> int) list \<Rightarrow> (int \<times> week) list \<Rightarrow> (string \<times> tally) list" where
  "tallies bs ws = map (\<lambda>(label, start_ts). (label, tally_of (since start_ts ws))) bs"

definition non_negative_weeks :: "cache \<Rightarrow> bool" where
  "non_negative_weeks c =
     list_all (\<lambda>(week_ts, wk). 0 \<le> dict_get wk ''a'' 0 \<and> 0 \<le> dict_get wk ''d'' 0)
       (all_weeks c)"

definition frame_le :: "frame_stats \<Rightarrow> frame_stats \<Rightarrow> bool" where
  "frame_le x y =
     (additions x \<le> additions y \<and> deletions x \<le> deletions y \<and> total x \<le> total y)"

subsection \<open>Cache entries\<close>

text \<open>
  The entry of a repository (\<open>None\<close> when there is none), its \<^verbatim>\<open>weeks\<close> (empty when there
  is no entry, as \<^verbatim>\<open>cached_repo.get("weeks")\<close> of the default \<^verbatim>\<open>{}\<close> is), a list of API weeks
  whose additions and deletions are all zero, and the bucket that line 409 stores for a
  week entry.
\<close>

definition entry_of :: "cache \<Rightarrow> string \<Rightarrow> repo_entry option" where
  "entry_of c fname = (case repos c of None \<Rightarrow> None | Some rs \<Rightarrow> map_of rs fname)"

definition cached_weeks :: "cache \<Rightarrow> string \<Rightarrow> (int \<times> week) list" where
  "cached_weeks c fname = (case entry_of c fname of None \<Rightarrow> [] | Some e \<Rightarrow> weeks e)"

definition all_zero :: "week list \<Rightarrow> bool" where
  "all_zero ws = list_all (\<lambda>w. dict_get w ''a'' 0 = 0 \<and> dict_get w ''d'' 0 = 0) ws"

definition bucket_of :: "week \<Rightarrow> int \<times> week" where
  "bucket_of w = (dict_get w ''w'' 0, [(''a'', dict_get w ''a'' 0), (''d'', dict_get w ''d'' 0)])"

subsection \<open>Reading a log as commits and per-file pairs\<close>

text \<open>
  The statement about the history walk speaks of commits and of their per-file pairs.
  A line of the log is blank, the timestamp of a commit, a per-file line (at least three
  fields between tabs, of which the first two are the counts), or anything else. The
  per-file pairs of a log are listed with the timestamp of the commit they stand under;
  pairs before the first commit line belong to no commit.
\<close>

datatype log_line = Blank | Commit_time int | File_pair string string | Other_line

definition classify :: "string \<Rightarrow> log_line" where
  "classify raw =
     (let line = strip raw in
      if line = [] then Blank
      else if isdigit line then
        (case py_int line of Inr n \<Rightarrow> Commit_time n | Inl e \<Rightarrow> Other_line)
      else
        (case split (CHR 0x09) line of
           p0 # p1 # p2 # others \<Rightarrow> File_pair p0 p1
         | _ \<Rightarrow> Other_line))"

fun file_pairs :: "log_line list \<Rightarrow> int option \<Rightarrow> (int \<times> string \<times> string) list" where
  "file_pairs [] cur = []"
| "file_pairs (Commit_time n # ls) cur = file_pairs ls (Some n)"
| "file_pairs (File_pair p0 p1 # ls) (Some ts) = (ts, p0, p1) # file_pairs ls (Some ts)"
| "file_pairs (l # ls) cur = file_pairs ls cur"

text \<open>
  The pairs that count, with their counts as numbers: those for which the code's reading
  of both counts (\<open>count_of\<close>: an integer, or \<^verbatim>\<open>-\<close> for 0) succeeds.
\<close>

definition counted :: "(int \<times> string \<times> string) list \<Rightarrow> (int \<times> int \<times> int) list" where
  "counted pairs =
     List.map_filter (\<lambda>(ts, p0, p1).
        case count_of p0 of
          Inl e \<Rightarrow> None
        | Inr x \<Rightarrow> (case count_of p1 of Inl e \<Rightarrow> None | Inr y \<Rightarrow> Some (ts, x, y))) pairs"

text \<open>
  The sums of the additions and of the deletions of the counted pairs whose commit falls
  in the week that starts at \<open>k\<close>; the weeks in which the commit of some counted pair
  falls, each once and in ascending order; the list of week entries that has one entry for
  each of these weeks, with the sums of that week; the bucket of a week in the dictionary
  \<^verbatim>\<open>weekly\<close>, zeros when there is none; Monday 00:00 UTC (5 January 1970, the instant
  345600, was one); and the timestamps that \<^verbatim>\<open>datetime.fromtimestamp\<close> accepts.
\<close>

definition week_total :: "int \<Rightarrow> (int \<times> int \<times> int) list \<Rightarrow> int \<times> int" where
  "week_total k es =
     (let in_week = filter (\<lambda>(ts, x, y). week_start ts = Inr k) es
      in (sum_list (map (\<lambda>(ts, x, y). x) in_week), sum_list (map (\<lambda>(ts, x, y). y) in_week)))"

definition week_keys :: "(int \<times> int \<times> int) list \<Rightarrow> int list" where
  "week_keys es =
     List.map_filter (\<lambda>(ts, x, y). case week_start ts of Inl e \<Rightarrow> None | Inr k \<Rightarrow> Some k) es"

definition weeks_of :: "(int \<times> int \<times> int) list \<Rightarrow> int list" where
  "weeks_of es = sort (remdups (week_keys es))"

definition expected_weeks :: "(int \<times> int \<times> int) list \<Rightarrow> week list" where
  "expected_weeks es = map (\<lambda>k. week_dict (k, week_total k es)) (weeks_of es)"

definition bucket :: "(int \<times> int \<times> int) list \<Rightarrow> int \<Rightarrow> int \<times> int" where
  "bucket weekly k = dict_get weekly k (0, 0)"

definition plus2 :: "int \<times> int \<Rightarrow> int \<times> int \<Rightarrow> int \<times> int" where
  "plus2 p q = (fst p + fst q, snd p + snd q)"

definition monday_midnight :: "int \<Rightarrow> bool" where
  "monday_midnight k = (k mod 604800 = 345600)"

definition in_datetime_range :: "(int \<times> int \<times> int) list \<Rightarrow> bool" where
  "in_datetime_range es = list_all (\<lambda>(ts, x, y). ts \<le> 253402300799) es"

subsection \<open>Sample inputs\<close>

text \<open>
  A cache with one bucket for the week of Monday 29 December 1969, the week that holds
  the epoch; it is what the history walk returns for a commit dated 1 January 1970.
\<close>

definition pre_epoch_cache :: cache where
  "pre_epoch_cache =
     \<lparr>repos = Some [(''o/r'', \<lparr>etag = None, is_private = False,
                                weeks = [(- 259200, [(''a'', 5), (''d'', 3)])],
                                last_fetched = 0\<rparr>)],
      last_updated = None\<rparr>"

text \<open>
  A cache with buckets of 1 January 2024, 9 December 2024 and 30 December 2024, and the
  states of a run at 1 January 2025 that has this cache, or an empty one.
\<close>

definition sample_cache :: cache where
  "sample_cache =
     \<lparr>repos = Some [(''o/a'', \<lparr>etag = Some ''e1'', is_private = False,
                                weeks = [(1704067200, [(''a'', 100), (''d'', 20)]),
                                         (1733702400, [(''a'', 7), (''d'', 1)])],
                                last_fetched = 0\<rparr>),
                     (''o/b'', \<lparr>etag = None, is_private = True,
                                weeks = [(1735516800, [(''a'', 4), (''d'', 9)])],
                                last_fetched = 0\<rparr>)],
      last_updated = None\<rparr>"

definition cached_state :: "cache run_state" where
  "cached_state = \<lparr>cache = sample_cache, clock = 1735689600000000, sleeps = [], clones = []\<rparr>"

definition fresh_state :: "cache run_state" where
  "fresh_state = \<lparr>cache = \<lparr>repos = Some [], last_updated = None\<rparr>,
                   clock = 1735689600000000, sleeps = [], clones = []\<rparr>"

definition sample_repo :: repo_info where
  "sample_repo = \<lparr>full_name = ''o/r'', private_flag = False\<rparr>"

text \<open>
  A line of \<^verbatim>\<open>git log --numstat\<close>, a log of one commit of 1 January 2024, and a log of two
  commits of that week, with a binary file and a line whose first count is not a number,
  and of one commit of 8 January 2024 that touches a binary file only.
\<close>

definition numstat_line :: "string \<Rightarrow> string \<Rightarrow> string \<Rightarrow> string" where
  "numstat_line adds dels path = adds @ [CHR 0x09] @ dels @ [CHR 0x09] @ path"

definition one_commit :: "string \<Rightarrow> string \<Rightarrow> git_outcome" where
  "one_commit token fname = Completed [''1704067200'', numstat_line ''5'' ''3'' ''f'']"

definition sample_log :: "string list" where
  "sample_log =
     [''1704067200'',
      numstat_line ''5'' ''3'' ''src/a.py'',
      numstat_line ''-'' ''-'' ''img.png'',
      numstat_line ''x'' ''1'' ''odd'',
      [],
      ''1704153600'',
      numstat_line ''2'' ''0'' ''src/b.py'',
      ''1704672000'',
      numstat_line ''-'' ''-'' ''logo.png'']"

text \<open>
  A world with one token and one repository, whose statistics are answered by 304 to a
  conditional request of pass 1 and by 202 otherwise, and whose clone times out.
\<close>

definition sample_world :: world where
  "sample_world =
     \<lparr>TOKENS = [(''personal'', ''t'')], GITHUB_USER = ''ctf05'', cache_file = Absent,
      repo_pages = (\<lambda>token. Last \<lparr>status_code = 200, headers = [], body = [sample_repo]\<rparr>),
      stats_api = (\<lambda>pass fname etg.
         \<lparr>status_code = (if pass = 1 \<and> etg \<noteq> None then 304 else 202), headers = [], body = []\<rparr>),
      git = (\<lambda>token fname. TimeoutExpired),
      start_time = 1735689600000000\<rparr>"

text \<open>
  The same world, where the history of the repository holds one commit, dated 1 January
  1970 00:00 UTC, with one file of 5 additions and 3 deletions.
\<close>

definition epoch_world :: world where
  "epoch_world =
     sample_world\<lparr>git := (\<lambda>token fname. Completed [''0'', numstat_line ''5'' ''3'' ''f''])\<rparr>"

text \<open>
  A response that leaves 5 requests until a reset 100 seconds after 1 January 2025.
\<close>

definition low_quota_response :: "int \<Rightarrow> contributor list response" where
  "low_quota_response status =
     \<lparr>status_code = status,
      headers = [(''X-RateLimit-Remaining'', ''5''), (''X-RateLimit-Reset'', ''1735689700'')],
      body = []\<rparr>"

text \<open>
  A world with two repositories, both cached, where the statistics call for \<^verbatim>\<open>o/a\<close> is
  answered by 500 and the one for \<^verbatim>\<open>o/b\<close> by 200; and the same world with a second token,
  where the listing for the first token is answered by 500.
\<close>

definition two_repos :: "repo_info list" where
  "two_repos = [\<lparr>full_name = ''o/b'', private_flag = True\<rparr>,
                \<lparr>full_name = ''o/a'', private_flag = False\<rparr>]"

definition failing_world :: world where
  "failing_world =
     \<lparr>TOKENS = [(''personal'', ''t''), (''LOME-AI'', [])], GITHUB_USER = ''ctf05'',
      cache_file = Holds (Dict_v sample_cache),
      repo_pages = (\<lambda>token. Last \<lparr>status_code = 200, headers = [], body = two_repos\<rparr>),
      stats_api = (\<lambda>pass fname etg.
         if fname = ''o/a'' then \<lparr>status_code = 500, headers = [], body = []\<rparr>
         else \<lparr>status_code = 200, headers = [],
               body = [\<lparr>author = Author_login ''ctf05'',
                        contributor_weeks = [[(''w'', 1735516800), (''a'', 6), (''d'', 2)]]\<rparr>]\<rparr>),
      git = (\<lambda>token fname. TimeoutExpired),
      start_time = 1735689600000000\<rparr>"

definition listing_failure_world :: world where
  "listing_failure_world =
     failing_world\<lparr>
       TOKENS := [(''personal'', ''t''), (''LOME-AI'', ''u'')],
       repo_pages := (\<lambda>token.
          if token = ''t'' then Last \<lparr>status_code = 500, headers = [], body = []\<rparr>
          else Last \<lparr>status_code = 200, headers = [],
                      body = [\<lparr>full_name = ''o/b'', private_flag = True\<rparr>]\<rparr>)\<rparr>"

section \<open>Properties of the aggregation\<close>

lemma since_append: "since b (xs @ ys) = since b xs @ since b ys"
  by (simp add: since_def)

lemma sum_a_append: "sum_a (xs @ ys) = sum_a xs + sum_a ys"
  by (simp add: sum_a_def)

lemma sum_d_append: "sum_d (xs @ ys) = sum_d xs + sum_d ys"
  by (simp add: sum_d_def)

lemma boundaries_eq:
  "boundaries now = [(''All Time'', 0), (''Last Year'', boundary now 365),
     (''Last Month'', boundary now 30), (''Last Week'', boundary now 7)]"
  by (simp add: boundaries_def TIME_FRAMES_def boundary_def)

lemma count_week_tallies:
  "count_week (boundaries now) w (tallies (boundaries now) xs)
     = tallies (boundaries now) (xs @ [w])"
  by (cases w)
    (simp add: boundaries_eq count_week_def tallies_def tally_of_def since_def sum_a_def
      sum_d_def add_week_def)

lemma fold_count_week:
  "fold (count_week (boundaries now)) ws (tallies (boundaries now) xs)
     = tallies (boundaries now) (xs @ ws)"
  by (induction ws arbitrary: xs) (simp_all add: count_week_tallies)

lemma count_repo_apply:
  "count_repo bs (repo_name, repo_data) = fold (count_week bs) (weeks repo_data)"
  by (simp add: count_repo_def)

lemma fold_count_repo:
  "fold (count_repo (boundaries now)) rs (tallies (boundaries now) xs)
     = tallies (boundaries now)
         (xs @ concat (map (\<lambda>(repo_name, repo_data). weeks repo_data) rs))"
proof (induction rs arbitrary: xs)
  case Nil
  then show ?case by simp
next
  case (Cons r rs)
  obtain repo_name repo_data where r: "r = (repo_name, repo_data)" by (cases r)
  show ?case
    by (simp add: r count_repo_apply fold_count_week Cons.IH)
qed

lemma tallies_Nil:
  "map (\<lambda>(label, days). (label, \<lparr>additions = 0, deletions = 0\<rparr>)) TIME_FRAMES
     = tallies (boundaries now) []"
  by (simp add: boundaries_eq tallies_def tally_of_def since_def sum_a_def sum_d_def
      TIME_FRAMES_def)

lemma compute_timeframes_eq:
  "compute_timeframes now c =
     map (\<lambda>(label, r). (label, with_total r)) (tallies (boundaries now) (all_weeks c))"
  unfolding compute_timeframes_def Let_def tallies_Nil [of now] fold_count_repo all_weeks_def
  by simp

lemma frame_All_Time:
  "frame (compute_timeframes now c) ''All Time''
     = with_total (tally_of (since 0 (all_weeks c)))"
  by (simp add: compute_timeframes_eq boundaries_eq tallies_def frame_def dict_get_def)

lemma frame_Last_Year:
  "frame (compute_timeframes now c) ''Last Year''
     = with_total (tally_of (since (boundary now 365) (all_weeks c)))"
  by (simp add: compute_timeframes_eq boundaries_eq tallies_def frame_def dict_get_def)

lemma frame_Last_Month:
  "frame (compute_timeframes now c) ''Last Month''
     = with_total (tally_of (since (boundary now 30) (all_weeks c)))"
  by (simp add: compute_timeframes_eq boundaries_eq tallies_def frame_def dict_get_def)

lemma frame_Last_Week:
  "frame (compute_timeframes now c) ''Last Week''
     = with_total (tally_of (since (boundary now 7) (all_weeks c)))"
  by (simp add: compute_timeframes_eq boundaries_eq tallies_def frame_def dict_get_def)

lemma sum_list_filter_mono:
  fixes f :: "'a \<Rightarrow> int"
  assumes "\<And>x. x \<in> set xs \<Longrightarrow> 0 \<le> f x" and "\<And>x. P x \<Longrightarrow> Q x"
  shows "sum_list (map f (filter P xs)) \<le> sum_list (map f (filter Q xs))"
  using assms by (induction xs) (auto simp: add_increasing)

lemma sum_a_since_mono:
  assumes "\<And>week_ts wk. (week_ts, wk) \<in> set ws \<Longrightarrow> 0 \<le> dict_get wk ''a'' 0" and "b \<le> b'"
  shows "sum_a (since b' ws) \<le> sum_a (since b ws)"
  unfolding sum_a_def since_def
  by (rule sum_list_filter_mono) (use assms in auto)

lemma sum_d_since_mono:
  assumes "\<And>week_ts wk. (week_ts, wk) \<in> set ws \<Longrightarrow> 0 \<le> dict_get wk ''d'' 0" and "b \<le> b'"
  shows "sum_d (since b' ws) \<le> sum_d (since b ws)"
  unfolding sum_d_def since_def
  by (rule sum_list_filter_mono) (use assms in auto)

lemma boundary_order:
  assumes "365 * 86400 * 1000000 \<le> now"
  shows "0 \<le> boundary now 365" and "boundary now 365 \<le> boundary now 30"
    and "boundary now 30 \<le> boundary now 7"
  using assms by (simp_all add: boundary_def seconds_of_def zdiv_mono1)

lemma since_frame_le:
  assumes "non_negative_weeks c" and "b \<le> b'"
  shows "frame_le (with_total (tally_of (since b' (all_weeks c))))
                  (with_total (tally_of (since b (all_weeks c))))"
proof -
  have a: "sum_a (since b' (all_weeks c)) \<le> sum_a (since b (all_weeks c))"
    using assms by (intro sum_a_since_mono) (auto simp: non_negative_weeks_def list_all_iff)
  have d: "sum_d (since b' (all_weeks c)) \<le> sum_d (since b (all_weeks c))"
    using assms by (intro sum_d_since_mono) (auto simp: non_negative_weeks_def list_all_iff)
  from a d show ?thesis
    by (simp add: frame_le_def with_total_def tally_of_def)
qed

text \<open>
  What the code computes for \<^verbatim>\<open>All Time\<close>: line 263 gives the window the bound 0, and line
  275 tests it like the bound of any other window, so the additions are the sum of the
  additions of the cached week buckets whose week start is at or after the epoch, the
  deletions likewise, and the total is the sum of the two.
\<close>

lemma all_time_sums_weeks_since_epoch:
  "additions (frame (compute_timeframes now c) ''All Time'') = sum_a (since 0 (all_weeks c))
   \<and> deletions (frame (compute_timeframes now c) ''All Time'') = sum_d (since 0 (all_weeks c))
   \<and> total (frame (compute_timeframes now c) ''All Time'')
       = additions (frame (compute_timeframes now c) ''All Time'')
         + deletions (frame (compute_timeframes now c) ''All Time'')"
  by (simp add: frame_All_Time with_total_def tally_of_def)

text \<open>
  For a cache none of whose buckets starts before the epoch, that is the sum over every
  bucket.
\<close>

lemma all_time_sums_every_week_since_epoch:
  assumes "list_all (\<lambda>(week_ts, wk). 0 \<le> week_ts) (all_weeks c)"
  shows "additions (frame (compute_timeframes now c) ''All Time'') = sum_a (all_weeks c)
       \<and> deletions (frame (compute_timeframes now c) ''All Time'') = sum_d (all_weeks c)"
proof -
  have "since 0 (all_weeks c) = all_weeks c"
    using assms unfolding since_def list_all_iff by (intro filter_True) auto
  then show ?thesis
    by (simp add: frame_All_Time with_total_def tally_of_def)
qed

text \<open>
  C2 fails on the code: with one cached bucket of 5 additions and 3 deletions for the week
  of 29 December 1969, the sums over every bucket are 5 and 3, and \<^verbatim>\<open>All Time\<close> reports 0.
  The code produces such a cache itself: in a run whose one repository stays at 202 in
  both passes and whose history holds a commit dated 1 January 1970 with 5 additions and 3
  deletions, the walk names the week by the timestamp -259200, \<^verbatim>\<open>_process_repo\<close> caches
  it, and \<^verbatim>\<open>All Time\<close> of the same run is 0.
\<close>

theorem all_time_drops_pre_epoch_week:
  "additions (frame (compute_timeframes 1700000000000000 pre_epoch_cache) ''All Time'')
     \<noteq> sum_a (all_weeks pre_epoch_cache)
   \<and> sum_a (all_weeks pre_epoch_cache) = 5 \<and> sum_d (all_weeks pre_epoch_cache) = 3
   \<and> total (frame (compute_timeframes 1700000000000000 pre_epoch_cache) ''All Time'') = 0
   \<and> (case main epoch_world of
         Inl e \<Rightarrow> False
       | Inr out \<Rightarrow>
           all_weeks (cache (final_state out)) = [(- 259200, [(''a'', 5), (''d'', 3)])]
           \<and> frame (svg_stats out) ''All Time'' = \<lparr>additions = 0, deletions = 0, total = 0\<rparr>)"
  by code_simp

text \<open>
  C10: when no cached bucket has negative additions or deletions and the current time is
  at least 365 days after the epoch, each of additions, deletions and total of
  \<^verbatim>\<open>Last Week\<close> is at most that of \<^verbatim>\<open>Last Month\<close>, which is at most that of \<^verbatim>\<open>Last Year\<close>,
  which is at most that of \<^verbatim>\<open>All Time\<close>.
\<close>

theorem window_totals_monotone:
  assumes "non_negative_weeks c" and "365 * 86400 * 1000000 \<le> now"
  shows "frame_le (frame (compute_timeframes now c) ''Last Week'')
                  (frame (compute_timeframes now c) ''Last Month'')
       \<and> frame_le (frame (compute_timeframes now c) ''Last Month'')
                  (frame (compute_timeframes now c) ''Last Year'')
       \<and> frame_le (frame (compute_timeframes now c) ''Last Year'')
                  (frame (compute_timeframes now c) ''All Time'')"
  unfolding frame_All_Time frame_Last_Year frame_Last_Month frame_Last_Week
  using since_frame_le [OF assms(1)] boundary_order [OF assms(2)] by blast

theorem window_totals_monotone_witness:
  "non_negative_weeks sample_cache \<and> 365 * 86400 * 1000000 \<le> (1735689600000000 :: int)
   \<and> frame_le (frame (compute_timeframes 1735689600000000 sample_cache) ''Last Week'')
              (frame (compute_timeframes 1735689600000000 sample_cache) ''Last Month'')
   \<and> frame_le (frame (compute_timeframes 1735689600000000 sample_cache) ''Last Month'')
              (frame (compute_timeframes 1735689600000000 sample_cache) ''Last Year'')
   \<and> frame_le (frame (compute_timeframes 1735689600000000 sample_cache) ''Last Year'')
              (frame (compute_timeframes 1735689600000000 sample_cache) ''All Time'')"
proof -
  have nn: "non_negative_weeks sample_cache"
    by (simp add: non_negative_weeks_def sample_cache_def all_weeks_def dict_get_def)
  have late: "365 * 86400 * 1000000 \<le> (1735689600000000 :: int)"
    by simp
  show ?thesis
    using nn late window_totals_monotone [OF nn late] by simp
qed

section \<open>Properties of processing one repository\<close>

lemma and_then_Inr [simp]: "and_then (Inr x) f = f x"
  by (simp add: and_then_def)

lemma and_then_Inl [simp]: "and_then (Inl e) f = Inl e"
  by (simp add: and_then_def)

lemma get_contributor_stats_304:
  "status_code resp = 304 \<Longrightarrow> get_contributor_stats user resp etg st = Inr ((None, etg, 304), st)"
  by (simp add: get_contributor_stats_def)

lemma get_contributor_stats_202:
  "status_code resp = 202 \<Longrightarrow>
     get_contributor_stats user resp etg st = Inr ((None, map_of (headers resp) ''ETag'', 202), st)"
  by (simp add: get_contributor_stats_def)

lemma process_repo_304:
  "repos (cache st) \<noteq> None \<Longrightarrow> process_repo git_env fname repo token st wks new_etag 304 = Inr st"
  by (auto simp: process_repo_def)

lemma process_repo_computing_cached:
  "cached_weeks (cache st) fname \<noteq> [] \<Longrightarrow> status \<noteq> 304 \<Longrightarrow>
     process_repo git_env fname repo token st None new_etag status = Inr st"
  by (auto simp: process_repo_def cached_weeks_def entry_of_def split: option.splits)

lemma put_entry_result:
  assumes "repos (cache st) \<noteq> None"
  shows "\<exists>st'. put_entry fname repo new_etag wd st = Inr st'
           \<and> clones st' = clones st \<and> sleeps st' = sleeps st \<and> clock st' = clock st
           \<and> entry_of (cache st') fname
               = Some \<lparr>etag = new_etag, is_private = private_flag repo, weeks = wd,
                       last_fetched = clock st\<rparr>
           \<and> (\<forall>other. other \<noteq> fname \<longrightarrow> entry_of (cache st') other = entry_of (cache st) other)"
  using assms by (auto simp: put_entry_def entry_of_def update_conv')

lemma run_clone_result:
  "clone_and_count (git_env token fname) = Inr fb \<Longrightarrow>
     run_clone git_env token fname st = Inr (fb, st\<lparr>clones := clones st @ [fname]\<rparr>)"
  by (simp add: run_clone_def)

lemma run_clone_error:
  "clone_and_count (git_env token fname) = Inl e \<Longrightarrow> run_clone git_env token fname st = Inl e"
  by (simp add: run_clone_def)

lemma process_repo_computing_fallback:
  assumes "repos (cache st) \<noteq> None" and "cached_weeks (cache st) fname = []" and "status \<noteq> 304"
    and "clone_and_count (git_env token fname) = Inr fb"
  shows "process_repo git_env fname repo token st None new_etag status
           = put_entry fname repo new_etag (weeks_dict_of fb) (st\<lparr>clones := clones st @ [fname]\<rparr>)"
  using assms
  by (auto simp: process_repo_def cached_weeks_def entry_of_def run_clone_result split: option.splits)

lemma sum_list_all_zero:
  "all_zero ws \<Longrightarrow> sum_list (map (\<lambda>w. dict_get w ''a'' 0) ws) = 0
     \<and> sum_list (map (\<lambda>w. dict_get w ''d'' 0) ws) = 0"
  by (induction ws) (auto simp: all_zero_def)

lemma process_repo_all_zero:
  assumes "repos (cache st) \<noteq> None" and "ws \<noteq> []" and "all_zero ws"
    and "clone_and_count (git_env token fname) = Inr fb"
  shows "process_repo git_env fname repo token st (Some ws) new_etag 200
           = put_entry fname repo new_etag (weeks_dict_of fb) (st\<lparr>clones := clones st @ [fname]\<rparr>)"
  using assms sum_list_all_zero [OF assms(3)]
  by (auto simp: process_repo_def run_clone_result)

lemma update_fresh: "k \<notin> fst ` set al \<Longrightarrow> AList.update k v al = al @ [(k, v)]"
  by (induction al) auto

lemma fold_update_fresh:
  assumes "distinct (map key ws)" and "key ` set ws \<inter> fst ` set acc = {}"
  shows "fold (\<lambda>w d. AList.update (key w) (val w) d) ws acc = acc @ map (\<lambda>w. (key w, val w)) ws"
  using assms
proof (induction ws arbitrary: acc)
  case Nil
  then show ?case by simp
next
  case (Cons w ws)
  have fresh: "key w \<notin> fst ` set acc"
    using Cons.prems(2) by auto
  have disj: "key ` set ws \<inter> fst ` set (acc @ [(key w, val w)]) = {}"
    using Cons.prems by auto
  show ?case
    using Cons.IH [OF _ disj] Cons.prems(1) by (simp add: update_fresh [OF fresh])
qed

lemma weeks_dict_of_distinct:
  "distinct (map (\<lambda>w. dict_get w ''w'' 0) ws) \<Longrightarrow> weeks_dict_of ws = map bucket_of ws"
  unfolding weeks_dict_of_def
  using fold_update_fresh [of "\<lambda>w. dict_get w ''w'' 0" ws "[]"
      "\<lambda>w. [(''a'', dict_get w ''a'' 0), (''d'', dict_get w ''d'' 0)]"]
  by (simp add: bucket_of_def)

lemma for_each_invariant:
  assumes "for_each loop_body xs s = Inr s'" and "P s"
    and step: "\<And>x t t'. P t \<Longrightarrow> loop_body x t = Inr t' \<Longrightarrow> P t'"
  shows "P s'"
  using assms(1,2)
proof (induction xs arbitrary: s)
  case Nil
  then show ?case by simp
next
  case (Cons x xs)
  from Cons.prems(1) obtain t where t: "loop_body x s = Inr t"
    and rest: "for_each loop_body xs t = Inr s'"
    by (auto split: sum.splits)
  have "P t" using step [OF Cons.prems(2) t] .
  then show ?case
    using Cons.IH [OF rest] by simp
qed

lemma bump_week_distinct:
  "distinct (map fst weekly) \<Longrightarrow> distinct (map fst (bump_week week_ts adds dels weekly))"
  by (simp add: bump_week_def Let_def distinct_update split: prod.splits)

lemma parse_line_distinct:
  assumes "parse_line raw (weekly, cur) = Inr (weekly', cur')" and "distinct (map fst weekly)"
  shows "distinct (map fst weekly')"
  using assms
  by (auto simp: parse_line_def Let_def and_then_def bump_week_distinct
      split: if_splits sum.splits)

lemma clone_and_count_distinct:
  assumes "clone_and_count outcome = Inr fb"
  shows "distinct (map (\<lambda>w. dict_get w ''w'' 0) fb)"
proof (cases outcome)
  case (Completed stdout_lines)
  with assms obtain weekly cur where
    loop: "for_each parse_line stdout_lines ([], None) = Inr (weekly, cur)"
    and fb: "fb = map week_dict (sort_key fst weekly)"
    by (auto simp: clone_and_count_def and_then_def split: sum.splits)
  have "distinct (map fst (fst (weekly, cur)))"
    by (rule for_each_invariant [OF loop, where P = "\<lambda>s. distinct (map fst (fst s))"])
      (auto dest: parse_line_distinct)
  then have "distinct (map fst (sort_key fst weekly))"
    by (simp add: distinct_map)
  moreover have "map (\<lambda>w. dict_get w ''w'' 0) fb = map fst (sort_key fst weekly)"
    by (auto simp: fb week_dict_def dict_get_def)
  ultimately show ?thesis by simp
qed (use assms in \<open>auto simp: clone_and_count_def\<close>)

text \<open>
  C3: when the statistics call returned a non-empty week list (status 200) whose additions
  and deletions are all zero, and the history walk returns, \<^verbatim>\<open>_process_repo\<close> calls
  \<^verbatim>\<open>clone_and_count\<close> exactly once (the record of calls grows by this repository), and
  the repository's cache entry afterwards holds exactly the weeks the walk returned, one
  bucket per returned week in the same order, whatever the all-zero weeks were.
\<close>

theorem all_zero_stats_trigger_one_fallback:
  assumes "repos (cache st) \<noteq> None" and "ws \<noteq> []" and "all_zero ws"
    and "clone_and_count (git_env token fname) = Inr fb"
  shows "\<exists>st'. process_repo git_env fname repo token st (Some ws) new_etag 200 = Inr st'
           \<and> clones st' = clones st @ [fname]
           \<and> map_option weeks (entry_of (cache st') fname) = Some (map bucket_of fb)"
proof -
  have nonempty: "repos (cache (st\<lparr>clones := clones st @ [fname]\<rparr>)) \<noteq> None"
    using assms(1) by simp
  have run: "process_repo git_env fname repo token st (Some ws) new_etag 200
      = put_entry fname repo new_etag (weeks_dict_of fb) (st\<lparr>clones := clones st @ [fname]\<rparr>)"
    using assms by (rule process_repo_all_zero)
  have fallback_weeks: "weeks_dict_of fb = map bucket_of fb"
    using assms(4) by (intro weeks_dict_of_distinct clone_and_count_distinct)
  from put_entry_result [OF nonempty, of fname repo new_etag "weeks_dict_of fb"]
  show ?thesis
    unfolding run fallback_weeks by auto
qed

lemma one_commit_walk:
  "clone_and_count (one_commit ''t'' ''o/r'') = Inr [[(''w'', 1704067200), (''a'', 5), (''d'', 3)]]"
  by code_simp

theorem all_zero_stats_trigger_one_fallback_witness:
  "repos (cache fresh_state) \<noteq> None
   \<and> [[(''w'', 1704067200), (''a'', 0), (''d'', 0), (''c'', 0)]] \<noteq> ([] :: week list)
   \<and> all_zero [[(''w'', 1704067200), (''a'', 0), (''d'', 0), (''c'', 0)]]
   \<and> clone_and_count (one_commit ''t'' ''o/r'')
       = Inr [[(''w'', 1704067200), (''a'', 5), (''d'', 3)]]
   \<and> (\<exists>st'. process_repo one_commit ''o/r'' sample_repo ''t'' fresh_state
                (Some [[(''w'', 1704067200), (''a'', 0), (''d'', 0), (''c'', 0)]]) None 200 = Inr st'
           \<and> clones st' = [''o/r'']
           \<and> map_option weeks (entry_of (cache st') ''o/r'')
               = Some [(1704067200, [(''a'', 5), (''d'', 3)])])"
proof -
  have h1: "repos (cache fresh_state) \<noteq> None"
    by (simp add: fresh_state_def)
  have h2: "[[(''w'', 1704067200), (''a'', 0), (''d'', 0), (''c'', 0)]] \<noteq> ([] :: week list)"
    by simp
  have h3: "all_zero [[(''w'', 1704067200), (''a'', 0), (''d'', 0), (''c'', 0)]]"
    by (simp add: all_zero_def dict_get_def)
  note h4 = one_commit_walk
  show ?thesis
    using h1 h2 h3 h4 all_zero_stats_trigger_one_fallback [OF h1 h2 h3, of one_commit "''t''" "''o/r''" _ sample_repo None, OF h4]
    by (simp add: bucket_of_def dict_get_def fresh_state_def)
qed

text \<open>
  C5: when the statistics call of pass 1 answers 304, the pass leaves the whole state as
  it was: the repository's entry (weeks, token, privacy flag, time of the last fetch),
  every other entry, and the records of sleeps and of history walks; so does
  \<^verbatim>\<open>_process_repo\<close> for the status 304 whatever its other arguments are.
\<close>

theorem unchanged_leaves_cache_untouched:
  assumes "repos (cache st) = Some rs"
    and "status_code (stats_api w 1 fname (case map_of rs fname of None \<Rightarrow> None | Some e \<Rightarrow> etag e)) = 304"
  shows "pass1_step w (fname, repo, token, token_label) (st, pending_202) = Inr (st, pending_202)
       \<and> process_repo (git w) fname repo token st wks new_etag 304 = Inr st"
  using assms
  by (simp add: pass1_step_def get_contributor_stats_304 process_repo_304)

theorem unchanged_leaves_cache_untouched_witness:
  "repos (cache cached_state) = Some (the (repos sample_cache))
   \<and> status_code (stats_api sample_world 1 ''o/a'' (Some ''e1'')) = 304
   \<and> pass1_step sample_world (''o/a'', sample_repo\<lparr>full_name := ''o/a''\<rparr>, ''t'', ''personal'') (cached_state, [])
       = Inr (cached_state, [])
   \<and> process_repo (git sample_world) ''o/a'' (sample_repo\<lparr>full_name := ''o/a''\<rparr>) ''t'' cached_state None (Some ''e1'') 304
       = Inr cached_state"
proof -
  have h1: "repos (cache cached_state) = Some (the (repos sample_cache))"
    by (simp add: cached_state_def sample_cache_def)
  have h2: "status_code (stats_api sample_world 1 ''o/a''
      (case map_of (the (repos sample_cache)) ''o/a'' of None \<Rightarrow> None | Some e \<Rightarrow> etag e)) = 304"
    by (simp add: sample_world_def sample_cache_def)
  have h3: "status_code (stats_api sample_world 1 ''o/a'' (Some ''e1'')) = 304"
    by (simp add: sample_world_def)
  show ?thesis
    using h1 h3 unchanged_leaves_cache_untouched [OF h1 h2]
    by simp
qed

text \<open>
  C4: a repository of pass 2 whose statistics call still answers 202. If its cached entry
  has a non-empty \<^verbatim>\<open>weeks\<close>, the state is left as it was and no history walk is made. If
  the entry is missing or its \<^verbatim>\<open>weeks\<close> is empty, the history walk is made once, and when
  it returns, the entry afterwards exists and holds the walk's weeks: an empty \<^verbatim>\<open>weeks\<close>
  when the walk returned the empty list.
\<close>

theorem still_computing_on_pass_2:
  assumes "repos (cache st) \<noteq> None" and "status_code (stats_api w 2 fname None) = 202"
  shows "(cached_weeks (cache st) fname \<noteq> [] \<longrightarrow>
            pass2_step w (fname, repo, token, old_etag) st = Inr st)
       \<and> (cached_weeks (cache st) fname = [] \<longrightarrow>
            (\<forall>fb. clone_and_count (git w token fname) = Inr fb \<longrightarrow>
               (\<exists>st'. pass2_step w (fname, repo, token, old_etag) st = Inr st'
                    \<and> clones st' = clones st @ [fname]
                    \<and> map_option weeks (entry_of (cache st') fname) = Some (weeks_dict_of fb)
                    \<and> (fb = [] \<longrightarrow> map_option weeks (entry_of (cache st') fname) = Some []))))"
proof (intro conjI impI allI)
  assume "cached_weeks (cache st) fname \<noteq> []"
  then show "pass2_step w (fname, repo, token, old_etag) st = Inr st"
    using assms(2)
    by (simp add: pass2_step_def get_contributor_stats_202 process_repo_computing_cached)
next
  fix fb
  assume empty: "cached_weeks (cache st) fname = []"
    and fb: "clone_and_count (git w token fname) = Inr fb"
  have run: "pass2_step w (fname, repo, token, old_etag) st
      = put_entry fname repo (map_of (headers (stats_api w 2 fname None)) ''ETag'')
          (weeks_dict_of fb) (st\<lparr>clones := clones st @ [fname]\<rparr>)"
    using assms empty fb
    by (simp add: pass2_step_def get_contributor_stats_202 process_repo_computing_fallback)
  have nonempty: "repos (cache (st\<lparr>clones := clones st @ [fname]\<rparr>)) \<noteq> None"
    using assms(1) by simp
  from put_entry_result [OF nonempty, of fname repo
      "map_of (headers (stats_api w 2 fname None)) ''ETag''" "weeks_dict_of fb"]
  obtain st' where put: "put_entry fname repo (map_of (headers (stats_api w 2 fname None)) ''ETag'')
        (weeks_dict_of fb) (st\<lparr>clones := clones st @ [fname]\<rparr>) = Inr st'"
    and log: "clones st' = clones st @ [fname]"
    and entry: "map_option weeks (entry_of (cache st') fname) = Some (weeks_dict_of fb)"
    by auto
  have "fb = [] \<longrightarrow> map_option weeks (entry_of (cache st') fname) = Some []"
    using entry by (auto simp: weeks_dict_of_def)
  with put log entry
  show "\<exists>st'. pass2_step w (fname, repo, token, old_etag) st = Inr st'
          \<and> clones st' = clones st @ [fname]
          \<and> map_option weeks (entry_of (cache st') fname) = Some (weeks_dict_of fb)
          \<and> (fb = [] \<longrightarrow> map_option weeks (entry_of (cache st') fname) = Some [])"
    unfolding run by blast
qed

theorem still_computing_on_pass_2_witness:
  "repos (cache cached_state) \<noteq> None \<and> repos (cache fresh_state) \<noteq> None
   \<and> status_code (stats_api sample_world 2 ''o/a'' None) = 202
   \<and> status_code (stats_api sample_world 2 ''o/r'' None) = 202
   \<and> cached_weeks (cache cached_state) ''o/a'' \<noteq> []
   \<and> pass2_step sample_world (''o/a'', sample_repo, ''t'', None) cached_state = Inr cached_state
   \<and> cached_weeks (cache fresh_state) ''o/r'' = []
   \<and> clone_and_count (git sample_world ''t'' ''o/r'') = Inr []
   \<and> (\<exists>st'. pass2_step sample_world (''o/r'', sample_repo, ''t'', None) fresh_state = Inr st'
           \<and> clones st' = [''o/r'']
           \<and> map_option weeks (entry_of (cache st') ''o/r'') = Some [])"
proof -
  have c1: "repos (cache cached_state) \<noteq> None"
    by (simp add: cached_state_def sample_cache_def)
  have c2: "status_code (stats_api sample_world 2 ''o/a'' None) = 202"
    by (simp add: sample_world_def)
  have c3: "cached_weeks (cache cached_state) ''o/a'' \<noteq> []"
    by (simp add: cached_weeks_def entry_of_def cached_state_def sample_cache_def)
  have f1: "repos (cache fresh_state) \<noteq> None"
    by (simp add: fresh_state_def)
  have f2: "status_code (stats_api sample_world 2 ''o/r'' None) = 202"
    by (simp add: sample_world_def)
  have f3: "cached_weeks (cache fresh_state) ''o/r'' = []"
    by (simp add: cached_weeks_def entry_of_def fresh_state_def)
  have f4: "clone_and_count (git sample_world ''t'' ''o/r'') = Inr []"
    by (simp add: sample_world_def clone_and_count_def)
  show ?thesis
    using c1 c2 c3 f1 f2 f3 f4
      still_computing_on_pass_2 [OF c1 c2, of sample_repo "''t''" None]
      still_computing_on_pass_2 [OF f1 f2, of sample_repo "''t''" None]
    by (auto simp: fresh_state_def)
qed

section \<open>Properties of the history walk\<close>

lemma bucket_bump_week:
  "bucket (bump_week w x y weekly) k
     = (if k = w then plus2 (bucket weekly k) (x, y) else bucket weekly k)"
  by (auto simp: bucket_def bump_week_def dict_get_def update_conv' plus2_def Let_def
      split: option.splits prod.splits)

lemma week_total_Nil: "week_total k [] = (0, 0)"
  by (simp add: week_total_def)

lemma week_total_Cons:
  "week_total k ((ts, x, y) # es)
     = (if week_start ts = Inr k then plus2 (x, y) (week_total k es) else week_total k es)"
  by (simp add: week_total_def plus2_def Let_def)

lemma plus2_assoc: "plus2 (plus2 p q) r = plus2 p (plus2 q r)"
  by (simp add: plus2_def)

lemma plus2_zero: "plus2 p (0, 0) = p"
  by (simp add: plus2_def)

lemma isdigit_py_int:
  assumes "isdigit s"
  shows "\<exists>n. py_int s = Inr n"
proof -
  have all: "list_all is_digit s" and ne: "s \<noteq> []"
    using assms by (simp_all add: isdigit_def)
  have nospace: "\<And>c. is_digit c \<Longrightarrow> \<not> int_space c"
    by (auto simp: is_digit_def int_space_def)
  have "dropWhile int_space s = s"
    using all ne nospace by (cases s) auto
  moreover have "dropWhile int_space (rev s) = rev s"
    using all ne nospace by (cases "rev s") (auto simp: list_all_iff)
  ultimately have strip: "int_strip s = s"
    by (simp add: int_strip_def)
  have nosign: "hd s \<noteq> CHR ''-'' \<and> hd s \<noteq> CHR ''+''"
    using all ne by (cases s) (auto simp: is_digit_def)
  have digits: "\<And>acc prev. xs \<noteq> [] \<or> prev \<Longrightarrow> list_all is_digit xs \<Longrightarrow> \<exists>n. int_digits prev acc xs = Some n" for xs
    by (induction xs) auto
  from digits [of s False 0] all ne obtain n where "int_digits False 0 s = Some n"
    by auto
  then show ?thesis
    using nosign ne by (simp add: py_int_def strip Let_def)
qed

lemma counted_append: "counted (ps @ qs) = counted ps @ counted qs"
  by (simp add: counted_def List.map_filter_def)

lemma week_total_append: "week_total k (es @ fs) = plus2 (week_total k es) (week_total k fs)"
  by (simp add: week_total_def plus2_def Let_def)

lemma counted_Nil: "counted [] = []"
  by (simp add: counted_def List.map_filter_def)

lemma counted_single:
  "counted [(ts, p0, p1)] =
     (case count_of p0 of
        Inl e \<Rightarrow> []
      | Inr x \<Rightarrow> (case count_of p1 of Inl e \<Rightarrow> [] | Inr y \<Rightarrow> [(ts, x, y)]))"
  by (simp add: counted_def List.map_filter_def split: sum.splits)

lemma file_pairs_step:
  "file_pairs (l # ls) cur
     = file_pairs [l] cur @ file_pairs ls (case l of Commit_time n \<Rightarrow> Some n | _ \<Rightarrow> cur)"
  by (cases l; cases cur) simp_all

lemma three_parts:
  assumes "3 \<le> length xs"
  shows "\<exists>a b c ds. xs = a # b # c # ds"
proof -
  from assms obtain a ys where xs: "xs = a # ys" and "2 \<le> length ys"
    by (cases xs) auto
  then obtain b zs where ys: "ys = b # zs" and "1 \<le> length zs"
    by (cases ys) auto
  then obtain c ds where "zs = c # ds"
    by (cases zs) auto
  with xs ys show ?thesis by simp
qed

lemma parse_line_effect:
  assumes "parse_line raw (weekly, cur) = Inr (weekly', cur')"
  shows "bucket weekly' k
           = plus2 (bucket weekly k) (week_total k (counted (file_pairs [classify raw] cur)))
         \<and> cur' = (case classify raw of Commit_time n \<Rightarrow> Some n | _ \<Rightarrow> cur)"
proof (cases "strip raw = []")
  case True
  with assms show ?thesis
    by (simp add: parse_line_def classify_def counted_Nil week_total_Nil plus2_zero)
next
  case nonblank: False
  show ?thesis
  proof (cases "isdigit (strip raw)")
    case True
    then obtain n where n: "py_int (strip raw) = Inr n"
      using isdigit_py_int by blast
    with assms nonblank True show ?thesis
      by (simp add: parse_line_def classify_def counted_Nil week_total_Nil plus2_zero)
  next
    case nodigit: False
    show ?thesis
    proof (cases "3 \<le> length (split (CHR 0x09) (strip raw)) \<and> cur \<noteq> None")
      case False
      then have unchanged: "weekly' = weekly \<and> cur' = cur"
        using assms nonblank nodigit by (auto simp: parse_line_def Let_def split: if_splits)
      have "file_pairs [classify raw] cur = []"
      proof (cases cur)
        case None
        then show ?thesis by (cases "classify raw") simp_all
      next
        case (Some ts)
        with False have "\<not> 3 \<le> length (split (CHR 0x09) (strip raw))" by simp
        then have "classify raw = Other_line"
          using nonblank nodigit
          by (auto simp: classify_def split: list.splits)
        then show ?thesis by simp
      qed
      moreover have "(case classify raw of Commit_time n \<Rightarrow> Some n | _ \<Rightarrow> cur) = cur"
        using nonblank nodigit by (auto simp: classify_def split: list.splits)
      ultimately show ?thesis
        using unchanged by (simp add: counted_Nil week_total_Nil plus2_zero)
    next
      case True
      then obtain ts where cur: "cur = Some ts" by auto
      from True obtain p0 p1 p2 others where parts: "split (CHR 0x09) (strip raw) = p0 # p1 # p2 # others"
        using three_parts by blast
      have cls: "classify raw = File_pair p0 p1"
        using nonblank nodigit parts by (simp add: classify_def)
      show ?thesis
      proof (cases "count_of p0")
        case (Inl e)
        with assms nonblank nodigit parts cur show ?thesis
          by (auto simp: parse_line_def cls counted_single week_total_Nil plus2_zero)
      next
        case x: (Inr x)
        show ?thesis
        proof (cases "count_of p1")
          case (Inl e)
          with assms nonblank nodigit parts cur x show ?thesis
            by (auto simp: parse_line_def cls counted_single week_total_Nil plus2_zero)
        next
          case y: (Inr y)
          from assms nonblank nodigit parts cur x y obtain wk where
            wk: "week_start ts = Inr wk" and res: "weekly' = bump_week wk x y weekly" "cur' = cur"
            by (auto simp: parse_line_def and_then_def split: sum.splits)
          show ?thesis
            using wk res cur x y
            by (auto simp: cls counted_single week_total_Cons week_total_Nil plus2_zero
                bucket_bump_week)
        qed
      qed
    qed
  qed
qed

lemma walk_buckets:
  assumes "for_each parse_line stdout_lines (weekly, cur) = Inr (weekly', cur')"
  shows "bucket weekly' k
           = plus2 (bucket weekly k)
               (week_total k (counted (file_pairs (map classify stdout_lines) cur)))"
  using assms
proof (induction stdout_lines arbitrary: weekly cur)
  case Nil
  then show ?case by (simp add: counted_Nil week_total_Nil plus2_zero)
next
  case (Cons raw rest)
  from Cons.prems obtain weekly1 cur1 where
    first: "parse_line raw (weekly, cur) = Inr (weekly1, cur1)"
    and rest: "for_each parse_line rest (weekly1, cur1) = Inr (weekly', cur')"
    by (auto split: sum.splits)
  note eff = parse_line_effect [OF first, of k]
  have "file_pairs (map classify (raw # rest)) cur
      = file_pairs [classify raw] cur @ file_pairs (map classify rest) cur1"
    using eff file_pairs_step [of "classify raw" "map classify rest" cur] by simp
  then show ?case
    using Cons.IH [OF rest] eff
    by (simp add: counted_append week_total_append plus2_assoc)
qed

lemma week_start_week:
  assumes "week_start ts = Inr k"
  shows "k \<le> ts \<and> ts < k + 604800 \<and> monday_midnight k"
proof -
  define days where "days = ts div 86400"
  define m where "m = days - (days + 3) mod 7"
  have k: "k = m * 86400"
    using assms by (auto simp: week_start_def Let_def days_def m_def split: if_splits)
  have m7: "m mod 7 = 4" unfolding m_def by presburger
  have "(86400 * m) mod (86400 * 7) = 86400 * (m mod 7)"
    by (rule mult_mod_right [symmetric])
  then have monday: "k mod 604800 = 345600"
    using m7 by (simp add: k mult.commute)
  have lo: "m \<le> days" and hi: "days \<le> m + 6" unfolding m_def by presburger+
  have "days * 86400 \<le> ts" and "ts < days * 86400 + 86400"
    unfolding days_def by presburger+
  with lo hi have "k \<le> ts \<and> ts < k + 604800"
    unfolding k by linarith
  with monday show ?thesis by (simp add: monday_midnight_def)
qed

lemma parse_line_returns:
  assumes "in_datetime_range (counted (file_pairs [classify raw] cur))"
  shows "\<exists>weekly' cur'. parse_line raw (weekly, cur) = Inr (weekly', cur')"
proof (cases "strip raw = []")
  case True
  then show ?thesis by (simp add: parse_line_def)
next
  case nonblank: False
  show ?thesis
  proof (cases "isdigit (strip raw)")
    case True
    then obtain n where n: "py_int (strip raw) = Inr n"
      using isdigit_py_int by blast
    with nonblank True show ?thesis
      by (simp add: parse_line_def)
  next
    case nodigit: False
    show ?thesis
    proof (cases "3 \<le> length (split (CHR 0x09) (strip raw)) \<and> cur \<noteq> None")
      case False
      then show ?thesis
        using nonblank nodigit by (auto simp: parse_line_def Let_def)
    next
      case True
      then obtain ts where cur: "cur = Some ts" by auto
      from True obtain p0 p1 p2 others where
        parts: "split (CHR 0x09) (strip raw) = p0 # p1 # p2 # others"
        using three_parts by blast
      have cls: "classify raw = File_pair p0 p1"
        using nonblank nodigit parts by (simp add: classify_def)
      show ?thesis
      proof (cases "count_of p0")
        case (Inl e)
        with nonblank nodigit parts cur show ?thesis
          by (auto simp: parse_line_def)
      next
        case x: (Inr x)
        show ?thesis
        proof (cases "count_of p1")
          case (Inl e)
          with nonblank nodigit parts cur x show ?thesis
            by (auto simp: parse_line_def)
        next
          case y: (Inr y)
          have "ts \<le> 253402300799"
            using assms cur x y by (simp add: cls counted_single in_datetime_range_def)
          then obtain wk where "week_start ts = Inr wk"
            by (simp add: week_start_def Let_def)
          with nonblank nodigit parts cur x y show ?thesis
            by (auto simp: parse_line_def)
        qed
      qed
    qed
  qed
qed

lemma in_datetime_range_append:
  "in_datetime_range (es @ fs) = (in_datetime_range es \<and> in_datetime_range fs)"
  by (simp add: in_datetime_range_def)

lemma walk_returns:
  assumes "in_datetime_range (counted (file_pairs (map classify stdout_lines) cur))"
  shows "\<exists>weekly' cur'. for_each parse_line stdout_lines (weekly, cur) = Inr (weekly', cur')"
  using assms
proof (induction stdout_lines arbitrary: weekly cur)
  case Nil
  then show ?case by simp
next
  case (Cons raw rest)
  have split_pairs: "file_pairs (map classify (raw # rest)) cur
      = file_pairs [classify raw] cur
        @ file_pairs (map classify rest) (case classify raw of Commit_time n \<Rightarrow> Some n | _ \<Rightarrow> cur)"
    using file_pairs_step [of "classify raw" "map classify rest" cur] by simp
  from Cons.prems have first_ok: "in_datetime_range (counted (file_pairs [classify raw] cur))"
    and rest_ok: "in_datetime_range (counted (file_pairs (map classify rest)
        (case classify raw of Commit_time n \<Rightarrow> Some n | _ \<Rightarrow> cur)))"
    unfolding split_pairs by (simp_all add: counted_append in_datetime_range_append)
  from parse_line_returns [OF first_ok] obtain weekly1 cur1 where
    first: "parse_line raw (weekly, cur) = Inr (weekly1, cur1)" by blast
  from parse_line_effect [OF first, of 0]
  have "cur1 = (case classify raw of Commit_time n \<Rightarrow> Some n | _ \<Rightarrow> cur)" by simp
  with Cons.IH [of cur1 weekly1] rest_ok first show ?case by simp
qed

lemma week_keys_Nil: "week_keys [] = []"
  by (simp add: week_keys_def List.map_filter_def)

lemma week_keys_append: "week_keys (es @ fs) = week_keys es @ week_keys fs"
  by (simp add: week_keys_def List.map_filter_def)

lemma week_keys_single:
  "week_start ts = Inr wk \<Longrightarrow> week_keys [(ts, x, y)] = [wk]"
  by (simp add: week_keys_def List.map_filter_def)

lemma bump_week_keys:
  "fst ` set (bump_week wk x y weekly) = insert wk (fst ` set weekly)"
proof -
  define w1 where
    "w1 = (if map_of weekly wk = None then AList.update wk (0, 0) weekly else weekly)"
  obtain a d where ad: "dict_get w1 wk (0, 0) = (a, d)"
    by (cases "dict_get w1 wk (0 :: int, 0 :: int)")
  have run: "bump_week wk x y weekly = AList.update wk (a + x, d + y) w1"
    using ad by (simp add: bump_week_def w1_def Let_def)
  have "fst ` set w1 \<subseteq> insert wk (fst ` set weekly)" and "fst ` set weekly \<subseteq> fst ` set w1"
    by (auto simp: w1_def dom_update)
  then show ?thesis
    unfolding run dom_update by auto
qed

lemma parse_line_cases:
  assumes "parse_line raw (weekly, cur) = Inr (weekly', cur')"
  shows "(counted (file_pairs [classify raw] cur) = [] \<and> weekly' = weekly)
       \<or> (\<exists>ts x y wk. counted (file_pairs [classify raw] cur) = [(ts, x, y)]
             \<and> week_start ts = Inr wk \<and> weekly' = bump_week wk x y weekly)"
proof (cases "strip raw = []")
  case True
  with assms show ?thesis
    by (simp add: parse_line_def classify_def counted_Nil)
next
  case nonblank: False
  show ?thesis
  proof (cases "isdigit (strip raw)")
    case True
    then obtain n where n: "py_int (strip raw) = Inr n"
      using isdigit_py_int by blast
    with assms nonblank True show ?thesis
      by (simp add: parse_line_def classify_def counted_Nil)
  next
    case nodigit: False
    show ?thesis
    proof (cases "3 \<le> length (split (CHR 0x09) (strip raw)) \<and> cur \<noteq> None")
      case False
      then have unchanged: "weekly' = weekly"
        using assms nonblank nodigit by (auto simp: parse_line_def Let_def split: if_splits)
      have "file_pairs [classify raw] cur = []"
      proof (cases cur)
        case None
        then show ?thesis by (cases "classify raw") simp_all
      next
        case (Some ts)
        with False have "\<not> 3 \<le> length (split (CHR 0x09) (strip raw))" by simp
        then have "classify raw = Other_line"
          using nonblank nodigit
          by (auto simp: classify_def split: list.splits)
        then show ?thesis by simp
      qed
      with unchanged show ?thesis by (simp add: counted_Nil)
    next
      case True
      then obtain ts where cur: "cur = Some ts" by auto
      from True obtain p0 p1 p2 others where
        parts: "split (CHR 0x09) (strip raw) = p0 # p1 # p2 # others"
        using three_parts by blast
      have cls: "classify raw = File_pair p0 p1"
        using nonblank nodigit parts by (simp add: classify_def)
      show ?thesis
      proof (cases "count_of p0")
        case (Inl e)
        with assms nonblank nodigit parts cur show ?thesis
          by (auto simp: parse_line_def cls counted_single)
      next
        case x: (Inr x)
        show ?thesis
        proof (cases "count_of p1")
          case (Inl e)
          with assms nonblank nodigit parts cur x show ?thesis
            by (auto simp: parse_line_def cls counted_single)
        next
          case y: (Inr y)
          from assms nonblank nodigit parts cur x y obtain wk where
            wk: "week_start ts = Inr wk" and res: "weekly' = bump_week wk x y weekly"
            by (auto simp: parse_line_def and_then_def split: sum.splits)
          show ?thesis
            using wk res cur x y by (simp add: cls counted_single)
        qed
      qed
    qed
  qed
qed

lemma parse_line_keys:
  assumes "parse_line raw (weekly, cur) = Inr (weekly', cur')"
  shows "fst ` set weekly'
           = fst ` set weekly \<union> set (week_keys (counted (file_pairs [classify raw] cur)))"
proof -
  from parse_line_cases [OF assms] consider
    (skip) "counted (file_pairs [classify raw] cur) = []" "weekly' = weekly"
    | (count) ts x y wk where "counted (file_pairs [classify raw] cur) = [(ts, x, y)]"
        "week_start ts = Inr wk" "weekly' = bump_week wk x y weekly"
    by blast
  then show ?thesis
  proof cases
    case skip
    then show ?thesis by (simp add: week_keys_Nil)
  next
    case count
    then show ?thesis by (simp add: week_keys_single bump_week_keys)
  qed
qed

lemma walk_keys:
  assumes "for_each parse_line stdout_lines (weekly, cur) = Inr (weekly', cur')"
  shows "fst ` set weekly'
           = fst ` set weekly
             \<union> set (week_keys (counted (file_pairs (map classify stdout_lines) cur)))"
  using assms
proof (induction stdout_lines arbitrary: weekly cur)
  case Nil
  then show ?case by (simp add: counted_Nil week_keys_Nil)
next
  case (Cons raw rest)
  from Cons.prems obtain weekly1 cur1 where
    first: "parse_line raw (weekly, cur) = Inr (weekly1, cur1)"
    and rest: "for_each parse_line rest (weekly1, cur1) = Inr (weekly', cur')"
    by (auto split: sum.splits)
  from parse_line_effect [OF first, of 0]
  have cur1: "cur1 = (case classify raw of Commit_time n \<Rightarrow> Some n | _ \<Rightarrow> cur)" by simp
  have "file_pairs (map classify (raw # rest)) cur
      = file_pairs [classify raw] cur @ file_pairs (map classify rest) cur1"
    using cur1 file_pairs_step [of "classify raw" "map classify rest" cur] by simp
  then show ?case
    using Cons.IH [OF rest] parse_line_keys [OF first]
    by (simp add: counted_append week_keys_append Un_assoc)
qed

lemma sorted_keys_unique:
  assumes "distinct (map fst weekly)" and "set (map fst weekly) = set ks"
  shows "map fst (sort_key fst weekly) = sort (remdups ks)"
proof (rule sorted_distinct_set_unique)
  show "sorted (map fst (sort_key fst weekly))" by (rule sorted_sort_key)
  show "distinct (map fst (sort_key fst weekly))"
    using assms(1) by (simp add: distinct_map)
  show "sorted (sort (remdups ks))" by simp
  show "distinct (sort (remdups ks))" by simp
  show "set (map fst (sort_key fst weekly)) = set (sort (remdups ks))"
    using assms(2) by simp
qed

lemma walk_result:
  assumes loop: "for_each parse_line stdout_lines ([], None) = Inr (weekly, cur)"
  shows "map week_dict (sort_key fst weekly)
           = expected_weeks (counted (file_pairs (map classify stdout_lines) None))"
proof -
  define cs where "cs = counted (file_pairs (map classify stdout_lines) None)"
  have "distinct (map fst (fst (weekly, cur)))"
    by (rule for_each_invariant [OF loop, where P = "\<lambda>s. distinct (map fst (fst s))"])
      (auto dest: parse_line_distinct)
  then have d: "distinct (map fst weekly)" by simp
  have keys: "set (map fst weekly) = set (week_keys cs)"
    using walk_keys [OF loop] by (simp add: cs_def)
  have sums: "bucket weekly k = week_total k cs" for k
    using walk_buckets [OF loop, of k] by (simp add: cs_def bucket_def dict_get_def plus2_def)
  have order: "map fst (sort_key fst weekly) = weeks_of cs"
    unfolding weeks_of_def by (rule sorted_keys_unique [OF d keys])
  have "p = (fst p, week_total (fst p) cs)" if "p \<in> set (sort_key fst weekly)" for p
  proof -
    obtain k v where p: "p = (k, v)" by (cases p)
    with that have "(k, v) \<in> set weekly" by simp
    with d have "map_of weekly k = Some v" by simp
    then have "bucket weekly k = v" by (simp add: bucket_def dict_get_def)
    with sums [of k] p show ?thesis by simp
  qed
  then have "map week_dict (sort_key fst weekly)
      = map (\<lambda>p. week_dict (fst p, week_total (fst p) cs)) (sort_key fst weekly)"
    by (intro map_cong refl) simp
  also have "\<dots> = map (\<lambda>k. week_dict (k, week_total k cs)) (map fst (sort_key fst weekly))"
    by (simp add: comp_def)
  finally show ?thesis
    by (simp add: order expected_weeks_def cs_def)
qed

text \<open>
  A counted pair under a commit dated after the year 9999 makes the walk raise: line 203
  is outside of the \<^verbatim>\<open>try\<close>.
\<close>

lemma parse_line_raises:
  assumes "\<not> in_datetime_range (counted (file_pairs [classify raw] cur))"
  shows "parse_line raw (weekly, cur) = Inl ValueError"
proof -
  have pairs: "counted (file_pairs [classify raw] cur) \<noteq> []"
    using assms by (auto simp: in_datetime_range_def)
  then obtain p0 p1 ts where cls: "classify raw = File_pair p0 p1" and cur: "cur = Some ts"
    by (cases "classify raw"; cases cur) (auto simp: counted_Nil)
  from cls have nonblank: "strip raw \<noteq> []" and nodigit: "\<not> isdigit (strip raw)"
    by (auto simp: classify_def Let_def split: if_splits sum.splits)
  from cls nonblank nodigit obtain p2 others where
    parts: "split (CHR 0x09) (strip raw) = p0 # p1 # p2 # others"
    by (auto simp: classify_def Let_def split: list.splits)
  from pairs obtain x y where x: "count_of p0 = Inr x" and y: "count_of p1 = Inr y"
    by (auto simp: cls cur counted_single split: sum.splits)
  have "ts > 253402300799"
    using assms by (simp add: cls cur counted_single x y in_datetime_range_def)
  then have "week_start ts = Inl ValueError"
    by (simp add: week_start_def)
  then show ?thesis
    using nonblank nodigit parts cur x y by (simp add: parse_line_def)
qed

lemma walk_raises:
  assumes "\<not> in_datetime_range (counted (file_pairs (map classify stdout_lines) cur))"
  shows "for_each parse_line stdout_lines (weekly, cur) = Inl ValueError"
  using assms
proof (induction stdout_lines arbitrary: weekly cur)
  case Nil
  then show ?case by (simp add: counted_Nil in_datetime_range_def)
next
  case (Cons raw rest)
  show ?case
  proof (cases "in_datetime_range (counted (file_pairs [classify raw] cur))")
    case False
    then show ?thesis by (simp add: parse_line_raises)
  next
    case True
    from parse_line_returns [OF True] obtain weekly1 cur1 where
      first: "parse_line raw (weekly, cur) = Inr (weekly1, cur1)" by blast
    from parse_line_effect [OF first, of 0]
    have cur1: "cur1 = (case classify raw of Commit_time n \<Rightarrow> Some n | _ \<Rightarrow> cur)" by simp
    have "file_pairs (map classify (raw # rest)) cur
        = file_pairs [classify raw] cur @ file_pairs (map classify rest) cur1"
      using cur1 file_pairs_step [of "classify raw" "map classify rest" cur] by simp
    with Cons.prems True
    have "\<not> in_datetime_range (counted (file_pairs (map classify rest) cur1))"
      by (simp add: counted_append in_datetime_range_append)
    from Cons.IH [OF this] first show ?thesis by simp
  qed
qed

lemma walk_after_year_9999:
  assumes "\<not> in_datetime_range (counted (file_pairs (map classify stdout_lines) None))"
  shows "clone_and_count (Completed stdout_lines) = Inl ValueError"
  using walk_raises [OF assms] by (simp add: clone_and_count_def)

text \<open>
  C8, as the code has it. The per-file pairs of the log are taken with the timestamp of
  the commit they stand under, and a pair counts when each of its two counts is an integer
  or \<^verbatim>\<open>-\<close>, which is read as 0. Whenever the commits of the counted pairs are dated within
  the range of \<^verbatim>\<open>datetime\<close> (up to the year 9999), the walk returns exactly this list: one
  bucket for every week in which the commit of at least one counted pair falls, also when
  all the counts of that week are zero, in ascending order of the weeks, each bucket
  holding the sum of the additions and the sum of the deletions of the counted pairs of
  its week, and no other bucket. A week is named by its Monday 00:00 UTC, which is at most
  the commit's timestamp and less than 7 days before it. A pair with any other count is
  not counted: it adds nothing to any bucket, creates none, and does not make the walk
  fail.
\<close>

theorem history_walk_buckets_by_week:
  assumes "in_datetime_range (counted (file_pairs (map classify stdout_lines) None))"
  shows "clone_and_count (Completed stdout_lines)
           = Inr (expected_weeks (counted (file_pairs (map classify stdout_lines) None)))
       \<and> (\<forall>ts k. week_start ts = Inr k \<longrightarrow> k \<le> ts \<and> ts < k + 604800 \<and> monday_midnight k)"
proof -
  from walk_returns [OF assms] obtain weekly cur where
    loop: "for_each parse_line stdout_lines ([], None) = Inr (weekly, cur)"
    by blast
  have "clone_and_count (Completed stdout_lines) = Inr (map week_dict (sort_key fst weekly))"
    by (simp add: clone_and_count_def loop)
  with walk_result [OF loop] week_start_week show ?thesis by simp
qed

theorem history_walk_buckets_by_week_witness:
  "in_datetime_range (counted (file_pairs (map classify sample_log) None))
   \<and> counted (file_pairs (map classify sample_log) None)
       = [(1704067200, 5, 3), (1704067200, 0, 0), (1704153600, 2, 0), (1704672000, 0, 0)]
   \<and> clone_and_count (Completed sample_log)
       = Inr [[(''w'', 1704067200), (''a'', 7), (''d'', 3)],
              [(''w'', 1704672000), (''a'', 0), (''d'', 0)]]
   \<and> week_start 1704153600 = Inr 1704067200 \<and> monday_midnight 1704067200"
proof -
  have pairs: "counted (file_pairs (map classify sample_log) None)
      = [(1704067200, 5, 3), (1704067200, 0, 0), (1704153600, 2, 0), (1704672000, 0, 0)]"
    by code_simp
  have h: "in_datetime_range (counted (file_pairs (map classify sample_log) None))"
    unfolding pairs by (simp add: in_datetime_range_def)
  have wk: "week_start 1704153600 = Inr 1704067200"
    by (simp add: week_start_def)
  have monday: "monday_midnight 1704067200"
    by (simp add: monday_midnight_def)
  have expected:
    "expected_weeks [(1704067200, 5, 3), (1704067200, 0, 0), (1704153600, 2, 0), (1704672000, 0, 0)]
       = [[(''w'', 1704067200), (''a'', 7), (''d'', 3)],
          [(''w'', 1704672000), (''a'', 0), (''d'', 0)]]"
    by code_simp
  show ?thesis
    using h pairs wk monday expected history_walk_buckets_by_week [OF h]
    by (simp add: pairs)
qed

text \<open>
  The week of a commit dated 1 January 1970 starts before the epoch: the walk names it by
  a negative timestamp, which \<^verbatim>\<open>_process_repo\<close> caches as it is.
\<close>

lemma epoch_commit_week:
  "clone_and_count (Completed [''0'', numstat_line ''5'' ''3'' ''f''])
     = Inr [[(''w'', - 259200), (''a'', 5), (''d'', 3)]]
   \<and> weeks_dict_of [[(''w'', - 259200), (''a'', 5), (''d'', 3)]]
     = [(- 259200, [(''a'', 5), (''d'', 3)])]"
  by code_simp

text \<open>
  C8 as stated fails. A pair whose additions are \<^verbatim>\<open>-\<close> and whose deletions are 7 is not
  skipped: its 7 deletions are added to the week's bucket. And a commit that touches only
  a binary file (\<^verbatim>\<open>-\<close> and \<^verbatim>\<open>-\<close>) leaves a bucket of zeros for its week, where the walk over
  the same log without that line returns no bucket.
\<close>

theorem dash_counts_are_zero_not_skipped:
  "clone_and_count (Completed [''1704067200'', numstat_line ''-'' ''7'' ''odd''])
     = Inr [[(''w'', 1704067200), (''a'', 0), (''d'', 7)]]
   \<and> clone_and_count (Completed [''1704067200'', numstat_line ''-'' ''-'' ''img.png''])
     = Inr [[(''w'', 1704067200), (''a'', 0), (''d'', 0)]]
   \<and> clone_and_count (Completed [''1704067200'']) = Inr []"
  by code_simp

section \<open>Properties of the client, of the run and of persistence\<close>

lemma non_ready_statuses_skip_rate_limit:
  assumes "status_code resp \<noteq> 200"
  shows "get_contributor_stats user resp etg st = Inl (HTTPError (status_code resp))
       \<or> (\<exists>r. get_contributor_stats user resp etg st = Inr (r, st))"
  using assms by (auto simp: get_contributor_stats_def raise_for_status_def and_then_def Let_def)

text \<open>
  C6 fails on the code: \<^verbatim>\<open>get_contributor_stats\<close> calls \<^verbatim>\<open>_check_rate_limit\<close> only in the
  branch of the status 200. For a response with 5 requests remaining and a reset 100
  seconds ahead, the check sleeps 100 seconds, and so does the client on a 200; on a 202
  and on a 304 the client returns with the state as it was, without any sleep.
\<close>

theorem quota_not_checked_unless_ready:
  "get_contributor_stats ''ctf05'' (low_quota_response 202) None fresh_state
     = Inr ((None, None, 202), fresh_state)
   \<and> get_contributor_stats ''ctf05'' (low_quota_response 304) (Some ''e1'') fresh_state
     = Inr ((None, Some ''e1'', 304), fresh_state)
   \<and> sleeps fresh_state = []
   \<and> check_rate_limit (headers (low_quota_response 202)) fresh_state
     = Inr (sleep 100 fresh_state)
   \<and> get_contributor_stats ''ctf05'' (low_quota_response 200) None fresh_state
     = Inr ((Some [], None, 200), sleep 100 fresh_state)"
  by code_simp

lemma listing_failure_is_survived:
  "(case main listing_failure_world of Inl e \<Rightarrow> False | Inr out \<Rightarrow> clones (final_state out) = [])"
  by code_simp

text \<open>
  C1 fails on the code: with two repositories found, the statistics call for \<^verbatim>\<open>o/a\<close>
  answering 500 and the one for \<^verbatim>\<open>o/b\<close> answering 200, \<^verbatim>\<open>raise_for_status\<close> raises in
  \<^verbatim>\<open>get_contributor_stats\<close>, nothing in \<^verbatim>\<open>main\<close> catches it, and the run ends with the
  \<^verbatim>\<open>HTTPError\<close>: no statistics are handed to the renderer and the cache is not written.
\<close>

theorem hard_failure_aborts_run:
  "main failing_world = Inl (HTTPError 500)"
  by code_simp

lemma absent_or_malformed_cache_loads_empty:
  "load_cache Absent = Inr (Dict_v empty_cache)
   \<and> load_cache Malformed = Inr (Dict_v empty_cache)
   \<and> init_repos (Dict_v empty_cache) = Inr (Dict_v (empty_cache\<lparr>repos := Some []\<rparr>))
   \<and> compute_timeframes now (empty_cache\<lparr>repos := Some []\<rparr>)
       = map (\<lambda>(label, days). (label, \<lparr>additions = 0, deletions = 0, total = 0\<rparr>)) TIME_FRAMES"
  by (simp add: load_cache_def init_repos_def empty_cache_def compute_timeframes_def
      TIME_FRAMES_def with_total_def)

text \<open>
  C7 fails on the code: \<^verbatim>\<open>load_cache\<close> resets to the empty cache only when the file is
  missing or \<^verbatim>\<open>json.load\<close> raises \<^verbatim>\<open>JSONDecodeError\<close>. A file that holds the JSON document
  \<^verbatim>\<open>[]\<close> is returned as that list, and \<^verbatim>\<open>cache["repos"] = {}\<close> in \<^verbatim>\<open>main\<close> raises
  \<^verbatim>\<open>TypeError\<close>; a file whose bytes are not text makes \<^verbatim>\<open>load_cache\<close> itself raise.
\<close>

theorem unrecognized_cache_file_crashes:
  "load_cache (Holds (List_v [])) = Inr (List_v [])
   \<and> init_repos (List_v []) = Inl TypeError
   \<and> main (sample_world\<lparr>cache_file := Holds (List_v [])\<rparr>) = Inl TypeError
   \<and> load_cache Undecodable = Inl UnicodeDecodeError
   \<and> main (sample_world\<lparr>cache_file := Undecodable\<rparr>) = Inl UnicodeDecodeError"
  by code_simp

text \<open>
  C9, as the code has it: \<^verbatim>\<open>save_cache\<close> opens the cache file itself for writing and
  writes into it. The file goes from what it held, through the emptied (then cut-off)
  file, to the new document; there is no other state and no second file. A run that
  finds the emptied or cut-off file loads the empty cache, and a run that finds the
  completed file loads the cache that was saved.
\<close>

theorem save_cache_rewrites_in_place:
  "snd (save_cache now c file) = [file, Malformed, Holds (Dict_v (fst (save_cache now c file)))]
   \<and> fst (save_cache now c file) = c\<lparr>last_updated := Some now\<rparr>
   \<and> load_cache (snd (save_cache now c file) ! 1) = Inr (Dict_v empty_cache)
   \<and> load_cache (last (snd (save_cache now c file))) = Inr (Dict_v (fst (save_cache now c file)))"
  by (simp add: save_cache_def load_cache_def Let_def)

text \<open>
  C9 as stated fails: after \<^verbatim>\<open>open(CACHE_PATH, "w")\<close> the file holds neither the
  previously persisted cache nor the new one, and loading it gives the empty cache.
\<close>

theorem crash_during_save_loses_cache:
  "snd (save_cache 1735689600000000 sample_cache (Holds (Dict_v sample_cache))) ! 1
     \<noteq> Holds (Dict_v sample_cache)
   \<and> snd (save_cache 1735689600000000 sample_cache (Holds (Dict_v sample_cache))) ! 1
     \<noteq> Holds (Dict_v (fst (save_cache 1735689600000000 sample_cache (Holds (Dict_v sample_cache)))))
   \<and> load_cache (snd (save_cache 1735689600000000 sample_cache (Holds (Dict_v sample_cache))) ! 1)
     = Inr (Dict_v empty_cache)
   \<and> Dict_v empty_cache \<noteq> Dict_v sample_cache"
  by (simp add: save_cache_def load_cache_def Let_def empty_cache_def sample_cache_def)

end
